theory Spec2Isabelle
  imports Complex_Main "HOL-Library.Sublist"
begin

section \<open>Python values used by the bot\<close>

subsection \<open>Dictionaries\<close>

text \<open>
  A Python \<open>dict\<close> keeps its keys in insertion order. Storing under a key that is
  already present replaces the value and leaves the key where it is; a fresh key goes
  to the end. The items of a dictionary are modelled as an association list.
\<close>

type_synonym ('k, 'v) dict = "('k \<times> 'v) list"

fun dict_set :: "('k, 'v) dict \<Rightarrow> 'k \<Rightarrow> 'v \<Rightarrow> ('k, 'v) dict" where
  "dict_set [] k v = [(k, v)]"
| "dict_set ((k', v') # d) k v =
     (if k' = k then (k', v) # d else (k', v') # dict_set d k v)"

definition dict_keys :: "('k, 'v) dict \<Rightarrow> 'k list" where
  "dict_keys d = map fst d"

definition dict_has :: "('k, 'v) dict \<Rightarrow> 'k \<Rightarrow> bool" where
  \<comment> \<open>\<open>k in d\<close>\<close>
  "dict_has d k = (k \<in> set (dict_keys d))"

definition dict_get :: "('k, 'v) dict \<Rightarrow> 'k \<Rightarrow> 'v option" where
  "dict_get d k = map_of d k"

subsection \<open>Strings\<close>

text \<open>
  A Python \<open>str\<close> is modelled by its UTF-8 bytes. Equality, \<open>in\<close>, \<open>startswith\<close> and
  \<open>split\<close> on a separator agree on code points and on their UTF-8 encodings.
\<close>

definition startswith :: "string \<Rightarrow> string \<Rightarrow> bool" where
  \<comment> \<open>\<open>s.startswith(p)\<close>\<close>
  "startswith s p = prefix p s"

fun str_contains :: "string \<Rightarrow> string \<Rightarrow> bool" where
  \<comment> \<open>\<open>sub in s\<close>\<close>
  "str_contains sub [] = (sub = [])"
| "str_contains sub (c # s) = (prefix sub (c # s) \<or> str_contains sub s)"

text \<open>
  \<open>s.split(sep)\<close> for a non-empty separator: the pieces between the leftmost
  non-overlapping occurrences of \<open>sep\<close>. (Python raises ValueError on an empty
  separator; the bot only ever splits on \<open>"::"\<close>.)
\<close>

fun split_acc :: "string \<Rightarrow> string \<Rightarrow> string \<Rightarrow> string list" where
  "split_acc sep acc [] = [rev acc]"
| "split_acc sep acc (c # s) =
     (if sep \<noteq> [] \<and> prefix sep (c # s)
      then rev acc # split_acc sep [] (drop (length sep - 1) s)
      else split_acc sep (c # acc) s)"

definition split :: "string \<Rightarrow> string \<Rightarrow> string list" where
  "split s sep = split_acc sep [] s"

text \<open>
  \<open>s.strip()\<close> removes leading and trailing whitespace. The table lists the UTF-8
  encodings of the code points Python treats as whitespace: U+0009..U+000D,
  U+001C..U+0020, U+0085, U+00A0, U+1680, U+2000..U+200A, U+2028, U+2029, U+202F,
  U+205F, U+3000.
\<close>

definition whitespace :: "string list" where
  "whitespace =
     [[CHR 0x09], [CHR 0x0A], [CHR 0x0B], [CHR 0x0C], [CHR 0x0D],
      [CHR 0x1C], [CHR 0x1D], [CHR 0x1E], [CHR 0x1F], [CHR 0x20],
      [CHR 0xC2, CHR 0x85], [CHR 0xC2, CHR 0xA0],
      [CHR 0xE1, CHR 0x9A, CHR 0x80],
      [CHR 0xE2, CHR 0x80, CHR 0x80], [CHR 0xE2, CHR 0x80, CHR 0x81],
      [CHR 0xE2, CHR 0x80, CHR 0x82], [CHR 0xE2, CHR 0x80, CHR 0x83],
      [CHR 0xE2, CHR 0x80, CHR 0x84], [CHR 0xE2, CHR 0x80, CHR 0x85],
      [CHR 0xE2, CHR 0x80, CHR 0x86], [CHR 0xE2, CHR 0x80, CHR 0x87],
      [CHR 0xE2, CHR 0x80, CHR 0x88], [CHR 0xE2, CHR 0x80, CHR 0x89],
      [CHR 0xE2, CHR 0x80, CHR 0x8A],
      [CHR 0xE2, CHR 0x80, CHR 0xA8], [CHR 0xE2, CHR 0x80, CHR 0xA9],
      [CHR 0xE2, CHR 0x80, CHR 0xAF], [CHR 0xE2, CHR 0x81, CHR 0x9F],
      [CHR 0xE3, CHR 0x80, CHR 0x80]]"

fun strip_with :: "string list \<Rightarrow> nat \<Rightarrow> string \<Rightarrow> string" where
  \<comment> \<open>drop leading members of the table; the counter bounds the number of drops\<close>
  "strip_with ws 0 s = s"
| "strip_with ws (Suc n) s =
     (case find (\<lambda>w. w \<noteq> [] \<and> prefix w s) ws of
        None \<Rightarrow> s
      | Some w \<Rightarrow> strip_with ws n (drop (length w) s))"

definition lstrip :: "string \<Rightarrow> string" where
  "lstrip s = strip_with whitespace (length s) s"

definition rstrip :: "string \<Rightarrow> string" where
  "rstrip s = rev (strip_with (map rev whitespace) (length s) (rev s))"

definition strip :: "string \<Rightarrow> string" where
  "strip s = rstrip (lstrip s)"

section \<open>Change detection (grade\_change\_detector.py)\<close>

subsection \<open>Data\<close>

text \<open>
  A course is a JSON object read with \<open>course.get("name", "")\<close> and
  \<open>course.get("exams", [])\<close>: either key may be missing. An exam is one display
  string.
\<close>

record course =
  name :: "string option"
  exams :: "string list option"

definition course_name :: "course \<Rightarrow> string" where
  \<comment> \<open>\<open>course.get("name", "")\<close>\<close>
  "course_name c = (case name c of None \<Rightarrow> [] | Some n \<Rightarrow> n)"

definition course_exams :: "course \<Rightarrow> string list" where
  \<comment> \<open>\<open>course.get("exams", [])\<close>\<close>
  "course_exams c = (case exams c of None \<Rightarrow> [] | Some es \<Rightarrow> es)"

text \<open>The entries of the result of \<open>_compare_courses\<close>.\<close>

record new_course =
  n_name :: string
  n_exams :: "string list"

record updated_course =
  u_name :: string
  old_exams :: "string list"
  new_exams :: "string list"
  changes :: "string list"

record change_set =
  new :: "new_course list"
  updated :: "updated_course list"
  removed :: "string list"
  no_change :: "string list"

subsection \<open>\<open>_compare_exams\<close>\<close>

definition yok :: string where
  "yok = ''Yok''"

definition arrow :: string where
  \<comment> \<open>U+2192 RIGHTWARDS ARROW\<close>
  "arrow = [CHR 0xE2, CHR 0x86, CHR 0x92]"

definition guncellendi :: string where
  \<comment> \<open>the word before the colon of an update line; its second letter is U+00FC\<close>
  "guncellendi = ''G'' @ [CHR 0xC3, CHR 0xBC] @ ''ncellendi''"

definition score_of :: "string \<Rightarrow> string" where
  \<comment> \<open>\<open>e.split('::')[1].strip() if '::' in e else 'Yok'\<close>\<close>
  "score_of e = (if str_contains ''::'' e then strip (split e ''::'' ! 1) else yok)"

definition exam_name_of :: "string \<Rightarrow> string" where
  \<comment> \<open>\<open>e.split("::")[0].strip() if "::" in e else e\<close>\<close>
  "exam_name_of e = (if str_contains ''::'' e then strip (split e ''::'' ! 0) else e)"

definition exam_line :: "string list \<Rightarrow> string \<Rightarrow> string list" where
  \<comment> \<open>the body of the loop over \<open>new_exams\<close>: the lines one entry contributes\<close>
  "exam_line old_es new_exam =
     (if new_exam \<notin> set old_es then [''Yeni: '' @ new_exam]
      else if new_exam \<noteq> [] then
        (let exam_name = exam_name_of new_exam
         in case find (\<lambda>e. startswith e exam_name) old_es of
              None \<Rightarrow> []
            | Some old_exam \<Rightarrow>
                if old_exam \<noteq> [] \<and> old_exam \<noteq> new_exam
                then [guncellendi @ '': '' @ exam_name @ '' ('' @ score_of old_exam
                        @ '' '' @ arrow @ '' '' @ score_of new_exam @ '')'']
                else [])
      else [])"

fun compare_exams_loop :: "string list \<Rightarrow> string list \<Rightarrow> string list \<Rightarrow> string list" where
  "compare_exams_loop old_es [] chs = chs"
| "compare_exams_loop old_es (new_exam # rest) chs =
     compare_exams_loop old_es rest (chs @ exam_line old_es new_exam)"

definition compare_exams :: "string list \<Rightarrow> string list \<Rightarrow> string list" where
  "compare_exams old_es new_es = compare_exams_loop old_es new_es []"

subsection \<open>\<open>_compare_courses\<close>\<close>

definition to_dict :: "course list \<Rightarrow> (string, course) dict" where
  \<comment> \<open>\<open>{course.get("name", ""): course for course in courses}\<close>\<close>
  "to_dict cs = foldl (\<lambda>d c. dict_set d (course_name c) c) [] cs"

definition classify :: "(string, course) dict \<Rightarrow> change_set \<Rightarrow> string \<times> course \<Rightarrow> change_set" where
  \<comment> \<open>the body of the loop over \<open>new_dict.items()\<close>\<close>
  "classify old_dict ch item =
     (case item of (cname, new_c) \<Rightarrow>
        (case dict_get old_dict cname of
           None \<Rightarrow> ch\<lparr>new := new ch @ [\<lparr>n_name = cname, n_exams = course_exams new_c\<rparr>]\<rparr>
         | Some old_c \<Rightarrow>
             if course_exams old_c \<noteq> course_exams new_c
             then ch\<lparr>updated := updated ch @
                    [\<lparr>u_name = cname, old_exams = course_exams old_c,
                      new_exams = course_exams new_c,
                      changes = compare_exams (course_exams old_c) (course_exams new_c)\<rparr>]\<rparr>
             else ch\<lparr>no_change := no_change ch @ [cname]\<rparr>))"

definition drop_removed :: "(string, course) dict \<Rightarrow> change_set \<Rightarrow> string \<Rightarrow> change_set" where
  \<comment> \<open>the body of the loop over the keys of \<open>old_dict\<close>\<close>
  "drop_removed new_dict ch cname =
     (if dict_has new_dict cname then ch else ch\<lparr>removed := removed ch @ [cname]\<rparr>)"

definition compare_courses :: "course list \<Rightarrow> course list \<Rightarrow> change_set" where
  "compare_courses old_courses new_courses =
     (let ch0 = \<lparr>new = [], updated = [], removed = [], no_change = []\<rparr>;
          old_dict = to_dict old_courses;
          new_dict = to_dict new_courses;
          ch1 = foldl (classify old_dict) ch0 new_dict
      in foldl (drop_removed new_dict) ch1 (dict_keys old_dict))"

definition classified :: "change_set \<Rightarrow> string list" where
  \<comment> \<open>every course name the result mentions, class by class\<close>
  "classified ch = map n_name (new ch) @ map u_name (updated ch) @ removed ch @ no_change ch"

subsection \<open>\<open>detect_changes\<close>\<close>

text \<open>
  The two JSON files of the detector. A file may be missing, may fail to load (the
  code catches the exception, logs it and goes on as if the file were missing), or
  holds a dictionary from student id to that student's data. The log lines of this
  module are not part of the model.
\<close>

datatype 'a json_file = Missing | Broken | Content 'a

record student_data =
  last_updated :: "string option"
  courses :: "course list option"

type_synonym grades = "(string, student_data) dict"

definition data_courses :: "student_data \<Rightarrow> course list" where
  \<comment> \<open>\<open>student_data.get("courses", [])\<close>\<close>
  "data_courses d = (case courses d of None \<Rightarrow> [] | Some cs \<Rightarrow> cs)"

definition data_timestamp :: "student_data \<Rightarrow> string" where
  \<comment> \<open>\<open>student_data.get("last_updated", "")\<close>\<close>
  "data_timestamp d = (case last_updated d of None \<Rightarrow> '''' | Some t \<Rightarrow> t)"

definition load_grades :: "grades json_file \<Rightarrow> grades option" where
  "load_grades f = (case f of Content g \<Rightarrow> Some g | _ \<Rightarrow> None)"

definition load_previous_changes :: "grades json_file \<Rightarrow> grades" where
  "load_previous_changes f = (case f of Content g \<Rightarrow> g | _ \<Rightarrow> [])"

definition save_changes :: "bool \<Rightarrow> grades \<Rightarrow> grades json_file \<Rightarrow> grades json_file" where
  \<comment> \<open>the flag says whether the file can be opened for writing; when it cannot,
      the exception is caught and logged and the file stays as it was\<close>
  "save_changes writable g f = (if writable then Content g else f)"

record change_entry =
  timestamp :: string
  course_changes :: change_set
  current_courses :: "course list"

definition previous_courses_of :: "grades \<Rightarrow> string \<Rightarrow> course list" where
  \<comment> \<open>\<open>previous_state.get(student_id, {}).get("courses", [])\<close>\<close>
  "previous_courses_of previous_state sid =
     (case dict_get previous_state sid of None \<Rightarrow> [] | Some d \<Rightarrow> data_courses d)"

definition detect_student ::
  "grades \<Rightarrow> (string, change_entry) dict \<Rightarrow> string \<times> student_data \<Rightarrow> (string, change_entry) dict"
where
  \<comment> \<open>the body of the loop over \<open>current_grades.items()\<close>\<close>
  "detect_student previous_state all_changes item =
     (case item of (sid, d) \<Rightarrow>
        if previous_courses_of previous_state sid \<noteq> data_courses d
        then dict_set all_changes sid
               \<lparr>timestamp = data_timestamp d,
                course_changes = compare_courses (previous_courses_of previous_state sid) (data_courses d),
                current_courses = data_courses d\<rparr>
        else all_changes)"

definition detect_changes ::
  "bool \<Rightarrow> grades json_file \<Rightarrow> grades json_file \<Rightarrow> (string, change_entry) dict \<times> grades json_file"
where
  \<comment> \<open>arguments: whether the changes file can be written, the grades file, the changes
      file; result: the detected changes and the changes file afterwards\<close>
  "detect_changes writable grades_file changes_file =
     (case load_grades grades_file of
        None \<Rightarrow> ([], changes_file)
      | Some current_grades \<Rightarrow>
          if current_grades = [] then ([], changes_file)
          else
            (let previous_state = load_previous_changes changes_file;
                 all_changes = foldl (detect_student previous_state) [] current_grades
             in (all_changes,
                 if all_changes \<noteq> [] \<or> current_grades \<noteq> []
                 then save_changes writable current_grades changes_file
                 else changes_file)))"

subsection \<open>\<open>get_notifications\<close>\<close>

record notification =
  n_type :: string
  student_id :: string
  title :: string
  message :: string
  severity :: string

definition new_course_notification :: "string \<Rightarrow> new_course \<Rightarrow> notification" where
  "new_course_notification sid c =
     \<lparr>n_type = ''new_course'', student_id = sid,
      title = ''Yeni ders eklendi: '' @ n_name c,
      message = n_name c @ '' dersine yeni not giri'' @ [CHR 0xC5, CHR 0x9F] @ ''leri ba''
        @ [CHR 0xC5, CHR 0x9F] @ ''lad'' @ [CHR 0xC4, CHR 0xB1] @ ''. L'' @ [CHR 0xC3, CHR 0xBC]
        @ ''tfen kontrol edin.'',
      severity = ''info''\<rparr>"

definition grade_update_notification :: "string \<Rightarrow> string \<Rightarrow> string \<Rightarrow> notification" where
  "grade_update_notification sid cname change =
     \<lparr>n_type = ''grade_update'', student_id = sid,
      title = cname @ '' - '' @ change,
      message = cname @ '' dersinde not g'' @ [CHR 0xC3, CHR 0xBC] @ ''ncellendi: '' @ change,
      severity = ''warning''\<rparr>"

definition generic_update_notification :: "string \<Rightarrow> string \<Rightarrow> notification" where
  "generic_update_notification sid cname =
     \<lparr>n_type = ''grade_update'', student_id = sid,
      title = [CHR 0xE2, CHR 0x9C, CHR 0x8F, CHR 0xEF, CHR 0xB8, CHR 0x8F] @ '' '' @ cname
        @ '' - G'' @ [CHR 0xC3, CHR 0xBC] @ ''ncelleme geldi!'',
      message = cname @ '' dersinin notunda g'' @ [CHR 0xC3, CHR 0xBC] @ ''ncelleme vard''
        @ [CHR 0xC4, CHR 0xB1] @ ''r.'',
      severity = ''warning''\<rparr>"

definition course_removed_notification :: "string \<Rightarrow> string \<Rightarrow> notification" where
  "course_removed_notification sid cname =
     \<lparr>n_type = ''course_removed'', student_id = sid,
      title = ''Ders silindi: '' @ cname,
      message = cname @ '' dersi art'' @ [CHR 0xC4, CHR 0xB1] @ ''k listelerde g''
        @ [CHR 0xC3, CHR 0xB6] @ ''z'' @ [CHR 0xC3, CHR 0xBC] @ ''km'' @ [CHR 0xC3, CHR 0xBC]
        @ ''yor.'',
      severity = ''info''\<rparr>"

fun notify_new :: "string \<Rightarrow> new_course list \<Rightarrow> notification list \<Rightarrow> notification list" where
  "notify_new sid [] ns = ns"
| "notify_new sid (c # cs) ns = notify_new sid cs (ns @ [new_course_notification sid c])"

fun notify_exam_changes ::
  "string \<Rightarrow> string \<Rightarrow> string list \<Rightarrow> notification list \<Rightarrow> notification list" where
  "notify_exam_changes sid cname [] ns = ns"
| "notify_exam_changes sid cname (change # rest) ns =
     notify_exam_changes sid cname rest (ns @ [grade_update_notification sid cname change])"

fun notify_updated :: "string \<Rightarrow> updated_course list \<Rightarrow> notification list \<Rightarrow> notification list" where
  "notify_updated sid [] ns = ns"
| "notify_updated sid (c # cs) ns =
     notify_updated sid cs
       (if changes c \<noteq> [] then notify_exam_changes sid (u_name c) (changes c) ns
        else ns @ [generic_update_notification sid (u_name c)])"

fun notify_removed :: "string \<Rightarrow> string list \<Rightarrow> notification list \<Rightarrow> notification list" where
  "notify_removed sid [] ns = ns"
| "notify_removed sid (cname # rest) ns =
     notify_removed sid rest (ns @ [course_removed_notification sid cname])"

definition change_notifications :: "string \<Rightarrow> change_set \<Rightarrow> notification list \<Rightarrow> notification list" where
  \<comment> \<open>the body of the loop over \<open>changes.items()\<close>, for one student's change set\<close>
  "change_notifications sid detail ns =
     (let ns1 = (if new detail \<noteq> [] then notify_new sid (new detail) ns else ns);
          ns2 = (if updated detail \<noteq> [] then notify_updated sid (updated detail) ns1 else ns1)
      in if removed detail \<noteq> [] then notify_removed sid (removed detail) ns2 else ns2)"

definition get_notifications ::
  "bool \<Rightarrow> grades json_file \<Rightarrow> grades json_file \<Rightarrow> notification list \<times> grades json_file"
where
  "get_notifications writable grades_file changes_file =
     (case detect_changes writable grades_file changes_file of
        (all_changes, changes_file') \<Rightarrow>
          (foldl (\<lambda>ns (sid, e). change_notifications sid (course_changes e) ns) [] all_changes,
           changes_file'))"

definition kinds :: "notification list \<Rightarrow> (string \<times> string) list" where
  \<comment> \<open>type and severity of each notification, in order\<close>
  "kinds ns = map (\<lambda>e. (n_type e, severity e)) ns"

section \<open>Sessions and workers (main.py, login.py)\<close>

subsection \<open>Effects\<close>

text \<open>
  A call of a collaborator either returns or raises an exception derived from
  \<open>Exception\<close> (the only kind the \<open>except Exception\<close> clauses of main.py catch, and
  the only kind the worker code can raise); the exception carries its \<open>str()\<close>.
  What a worker does is recorded as a trace of events: the calls on the login handler
  and the lines it logs.
\<close>

datatype 'a outcome = Returns 'a | Raises string

datatype level = DEBUG | INFO | WARNING | ERROR | CRITICAL

datatype event =
    Login string
      \<comment> \<open>\<open>OMULogin.login()\<close> for this user name\<close>
  | GetPage string string bool
      \<comment> \<open>\<open>get_page_content(page_url)\<close>: user name, URL, and the value of
          \<open>login.AUTO_SURVEY\<close> the call reads\<close>
  | Close string
      \<comment> \<open>\<open>OMULogin.close()\<close>: the session of this user name is closed\<close>
  | Log level string

text \<open>
  The remote portal as one account's handler sees it: the answer to the k-th call of
  \<open>login()\<close> (\<open>True\<close> for a session, \<open>False\<close> for \<open>None\<close>), the answer to the k-th
  call of \<open>get_page_content\<close> given the auto-survey flag, and the k-th reading of
  \<open>time.time()\<close>. Times are real numbers: the code subtracts two readings and
  compares with the timeout.
\<close>

record portal =
  login_reply :: "nat \<Rightarrow> bool outcome"
  page_reply :: "bool \<Rightarrow> nat \<Rightarrow> bool outcome"
  clock :: "nat \<Rightarrow> real"

text \<open>The module globals of config.py.\<close>

record config =
  TELEGRAM_BOT_TOKEN :: string
  TELEGRAM_CHAT_ID :: string
  SESSION_TIMEOUT :: real
  REQUEST_DELAY :: real
  TELEGRAM_ENABLED :: bool
  AUTO_SURVEY :: bool

subsection \<open>\<open>SessionManager\<close>\<close>

record session_manager =
  username :: string
  password :: string
  sapid :: string
  login_handler :: bool
    \<comment> \<open>whether \<open>self.login_handler\<close> holds a handler (a handler object is truthy)\<close>
  session_start_time :: real
  trace :: "event list"
  logins :: nat
  pages :: nat
  ticks :: nat

definition SessionManager :: "string \<Rightarrow> string \<Rightarrow> string \<Rightarrow> session_manager" where
  "SessionManager u p s =
     \<lparr>username = u, password = p, sapid = s, login_handler = False,
      session_start_time = 0, trace = [], logins = 0, pages = 0, ticks = 0\<rparr>"

definition logger :: "level \<Rightarrow> string \<Rightarrow> session_manager \<Rightarrow> session_manager" where
  "logger lvl msg m = m\<lparr>trace := trace m @ [Log lvl msg]\<rparr>"

definition handler_login :: "portal \<Rightarrow> session_manager \<Rightarrow> bool outcome \<times> session_manager" where
  "handler_login p m =
     (login_reply p (logins m),
      m\<lparr>logins := Suc (logins m), trace := trace m @ [Login (username m)]\<rparr>)"

definition get_page_content ::
  "portal \<Rightarrow> bool \<Rightarrow> string \<Rightarrow> session_manager \<Rightarrow> bool outcome \<times> session_manager" where
  "get_page_content p auto page_url m =
     (page_reply p auto (pages m),
      m\<lparr>pages := Suc (pages m), trace := trace m @ [GetPage (username m) page_url auto]\<rparr>)"

definition time_time :: "portal \<Rightarrow> session_manager \<Rightarrow> real \<times> session_manager" where
  "time_time p m = (clock p (ticks m), m\<lparr>ticks := Suc (ticks m)\<rparr>)"

definition handler_close :: "session_manager \<Rightarrow> session_manager" where
  \<comment> \<open>\<open>OMULogin.close\<close>: closes the session, then logs at debug level\<close>
  "handler_close m =
     logger DEBUG (username m @ '' i'' @ [CHR 0xC3, CHR 0xA7] @ ''in oturum kapat''
         @ [CHR 0xC4, CHR 0xB1] @ ''ld'' @ [CHR 0xC4, CHR 0xB1] @ ''.'')
       (m\<lparr>trace := trace m @ [Close (username m)]\<rparr>)"

definition is_session_expired :: "portal \<Rightarrow> config \<Rightarrow> session_manager \<Rightarrow> bool \<times> session_manager" where
  "is_session_expired p cfg m =
     (case time_time p m of
        (now, m') \<Rightarrow> (now - session_start_time m' \<ge> SESSION_TIMEOUT cfg, m'))"

definition renew_session :: "portal \<Rightarrow> config \<Rightarrow> session_manager \<Rightarrow> bool outcome \<times> session_manager" where
  "renew_session p cfg m =
     (case is_session_expired p cfg m of
        (expired, m1) \<Rightarrow>
          if expired \<and> login_handler m1 then
            (case handler_login p
                    (logger INFO (username m1 @ '' i'' @ [CHR 0xC3, CHR 0xA7] @ ''in oturum s''
                       @ [CHR 0xC3, CHR 0xBC] @ ''resi doldu, yenileniyor...'') m1) of
               (Raises e, m2) \<Rightarrow> (Raises e, m2)
             | (Returns session, m2) \<Rightarrow>
                 if session then
                   (case time_time p m2 of
                      (now, m3) \<Rightarrow>
                        (Returns True,
                         logger INFO (username m3 @ '' i'' @ [CHR 0xC3, CHR 0xA7] @ ''in oturum ba''
                           @ [CHR 0xC5, CHR 0x9F] @ ''ar'' @ [CHR 0xC4, CHR 0xB1] @ ''yla yenilendi.'')
                           (m3\<lparr>session_start_time := now\<rparr>)))
                 else
                   (Returns False,
                    logger ERROR (username m2 @ '' i'' @ [CHR 0xC3, CHR 0xA7] @ ''in oturum yenileme ba''
                      @ [CHR 0xC5, CHR 0x9F] @ ''ar'' @ [CHR 0xC4, CHR 0xB1] @ ''s'' @ [CHR 0xC4, CHR 0xB1]
                      @ ''z!'') m2))
          else (Returns True, m1))"

definition fetch_body ::
  "portal \<Rightarrow> config \<Rightarrow> bool \<Rightarrow> session_manager \<Rightarrow> bool outcome \<times> session_manager" where
  \<comment> \<open>the body of the \<open>with\<close> block of \<open>fetch_student_data\<close>\<close>
  "fetch_body p cfg auto m0 =
     (case handler_login p (m0\<lparr>login_handler := True\<rparr>) of
        (Raises e, m1) \<Rightarrow> (Raises e, m1)
      | (Returns session, m1) \<Rightarrow>
          if \<not> session then
            (Returns False,
             logger ERROR (username m1 @ '' i'' @ [CHR 0xC3, CHR 0xA7] @ ''in giri''
               @ [CHR 0xC5, CHR 0x9F] @ '' ba'' @ [CHR 0xC5, CHR 0x9F] @ ''ar'' @ [CHR 0xC4, CHR 0xB1]
               @ ''s'' @ [CHR 0xC4, CHR 0xB1] @ ''z!'') m1)
          else
            (case time_time p
                    (logger INFO (username m1 @ '' i'' @ [CHR 0xC3, CHR 0xA7] @ ''in oturum a''
                       @ [CHR 0xC3, CHR 0xA7, CHR 0xC4, CHR 0xB1] @ ''ld'' @ [CHR 0xC4, CHR 0xB1]
                       @ ''.'') m1) of
               (now, m2) \<Rightarrow>
                 (case renew_session p cfg (m2\<lparr>session_start_time := now\<rparr>) of
                    (Raises e, m3) \<Rightarrow> (Raises e, m3)
                  | (Returns renewed, m3) \<Rightarrow>
                      if \<not> renewed then (Returns False, m3)
                      else
                        (case get_page_content p auto (sapid m3) m3 of
                           (Raises e, m4) \<Rightarrow> (Raises e, m4)
                         | (Returns success, m4) \<Rightarrow>
                             (Returns success,
                              if success
                              then logger INFO (username m4 @ '' i'' @ [CHR 0xC3, CHR 0xA7]
                                     @ ''in veriler ba'' @ [CHR 0xC5, CHR 0x9F] @ ''ar''
                                     @ [CHR 0xC4, CHR 0xB1] @ ''yla '' @ [CHR 0xC3, CHR 0xA7]
                                     @ ''ekildi.'') m4
                              else logger ERROR (username m4 @ '' i'' @ [CHR 0xC3, CHR 0xA7]
                                     @ ''in veri '' @ [CHR 0xC3, CHR 0xA7] @ ''ekme ba''
                                     @ [CHR 0xC5, CHR 0x9F] @ ''ar'' @ [CHR 0xC4, CHR 0xB1] @ ''s''
                                     @ [CHR 0xC4, CHR 0xB1] @ ''z!'') m4)))))"

definition fetch_student_data ::
  "portal \<Rightarrow> config \<Rightarrow> bool \<Rightarrow> session_manager \<Rightarrow> bool outcome \<times> session_manager" where
  \<comment> \<open>\<open>with self._get_login_handler() as handler\<close>: whether the body returns or raises,
      the \<open>finally\<close> clause of the context manager closes the handler\<close>
  "fetch_student_data p cfg auto m =
     (case fetch_body p cfg auto m of (r, m') \<Rightarrow> (r, handler_close m'))"

definition calls :: "event list \<Rightarrow> event list" where
  \<comment> \<open>the calls on the login handler in a trace, without the log lines\<close>
  "calls evs = filter (\<lambda>e. case e of Log lvl msg \<Rightarrow> False | _ \<Rightarrow> True) evs"

subsection \<open>The alert store (error\_tracker.py)\<close>

record fetch_alert =
  alert_error :: string
  alert_timestamp :: string
  alert_message :: string

record survey_alert =
  survey_found :: bool
  survey_timestamp :: string
  survey_message :: string

text \<open>The content of error\_tracking.json: both keys are optional.\<close>

record tracking =
  surveys :: "(string, survey_alert) dict option"
  fetch_errors :: "(string, fetch_alert) dict option"

definition load_tracking :: "tracking json_file \<Rightarrow> tracking" where
  "load_tracking f = (case f of Content t \<Rightarrow> t | _ \<Rightarrow> \<lparr>surveys = None, fetch_errors = None\<rparr>)"

definition save_tracking :: "bool \<Rightarrow> tracking \<Rightarrow> tracking json_file \<Rightarrow> tracking json_file" where
  \<comment> \<open>as \<open>save_changes\<close>: a file that cannot be opened for writing stays as it was\<close>
  "save_tracking writable t f = (if writable then Content t else f)"

definition record_fetch_error ::
  "bool \<Rightarrow> string \<Rightarrow> string \<Rightarrow> string \<Rightarrow> tracking json_file \<Rightarrow> tracking json_file" where
  \<comment> \<open>arguments: whether the file can be written, \<open>datetime.now().isoformat()\<close>, the
      student id, the error message, the file\<close>
  "record_fetch_error writable now sid error_msg f =
     (let t = load_tracking f;
          errs = (case fetch_errors t of None \<Rightarrow> [] | Some d \<Rightarrow> d);
          alert = \<lparr>alert_error = (if error_msg \<noteq> [] then error_msg
                                   else ''Veri '' @ [CHR 0xC3, CHR 0xA7] @ ''ekilemedi''),
                   alert_timestamp = now,
                   alert_message = ''Giri'' @ [CHR 0xC5, CHR 0x9F]
                     @ '' bilgilerinizi kontrol edin veya anketiniz olup olmad''
                     @ [CHR 0xC4, CHR 0xB1, CHR 0xC4, CHR 0x9F, CHR 0xC4, CHR 0xB1] @ ''n''
                     @ [CHR 0xC4, CHR 0xB1] @ '' kontrol edin''\<rparr>
      in save_tracking writable (t\<lparr>fetch_errors := Some (dict_set errs sid alert)\<rparr>) f)"

definition get_error_alerts :: "tracking json_file \<Rightarrow> (string, fetch_alert) dict" where
  "get_error_alerts f = (case fetch_errors (load_tracking f) of None \<Rightarrow> [] | Some d \<Rightarrow> d)"

subsection \<open>\<open>process_user\<close>\<close>

text \<open>One entry of the user list: each of the three keys is read with a default.\<close>

record user_config =
  user_name :: "string option"
  user_password :: "string option"
  user_sapid :: "string option"

definition get_or_empty :: "string option \<Rightarrow> string" where
  \<comment> \<open>\<open>user_config.get(key, "")\<close>\<close>
  "get_or_empty v = (case v of None \<Rightarrow> '''' | Some s \<Rightarrow> s)"

text \<open>
  The worker. Its arguments are the value of \<open>_bot_running\<close> it reads, the portal as
  this account sees it, the configuration globals, the value of \<open>login.AUTO_SURVEY\<close>,
  the user entry and the error-tracking file; it yields how the call ends, its trace,
  and the error-tracking file afterwards. The \<open>try\<close> block turns an exception of
  \<open>fetch_student_data\<close> into a logged error. The function has no statement that reads or
  writes that file. The warning about an incomplete entry is followed in the source
  by the \<open>repr\<close> of the entry, which is left out here.
\<close>

definition complete :: "user_config \<Rightarrow> bool" where
  \<comment> \<open>\<open>all([username, password, sapid])\<close>\<close>
  "complete uc =
     (get_or_empty (user_name uc) \<noteq> [] \<and> get_or_empty (user_password uc) \<noteq> []
      \<and> get_or_empty (user_sapid uc) \<noteq> [])"

definition worker_manager :: "user_config \<Rightarrow> session_manager" where
  \<comment> \<open>the manager the worker creates, after the line it logs before the \<open>try\<close>\<close>
  "worker_manager uc =
     logger INFO (get_or_empty (user_name uc) @ '' '' @ [CHR 0xC3, CHR 0xB6, CHR 0xC4, CHR 0x9F]
         @ ''rencisinin verisi i'' @ [CHR 0xC5, CHR 0x9F] @ ''leniyor...'')
       (SessionManager (get_or_empty (user_name uc)) (get_or_empty (user_password uc))
          (get_or_empty (user_sapid uc)))"

definition failure_warning :: "string \<Rightarrow> string" where
  \<comment> \<open>the warning logged when \<open>fetch_student_data\<close> returns \<open>False\<close>\<close>
  "failure_warning u =
     u @ '' i'' @ [CHR 0xC3, CHR 0xA7] @ ''in veri '' @ [CHR 0xC3, CHR 0xA7] @ ''ekme ba''
       @ [CHR 0xC5, CHR 0x9F] @ ''ar'' @ [CHR 0xC4, CHR 0xB1] @ ''s'' @ [CHR 0xC4, CHR 0xB1]
       @ ''z - muhtemelen anket var veya hata olu'' @ [CHR 0xC5, CHR 0x9F] @ ''tu''"

definition failure_error :: "string \<Rightarrow> string \<Rightarrow> string" where
  \<comment> \<open>the error logged when \<open>fetch_student_data\<close> raises\<close>
  "failure_error u err =
     u @ '' i'' @ [CHR 0xC3, CHR 0xA7] @ ''in i'' @ [CHR 0xC5, CHR 0x9F] @ ''lem s''
       @ [CHR 0xC4, CHR 0xB1] @ ''ras'' @ [CHR 0xC4, CHR 0xB1] @ ''nda hata olu''
       @ [CHR 0xC5, CHR 0x9F] @ ''tu: '' @ err"

definition process_user ::
  "bool \<Rightarrow> portal \<Rightarrow> config \<Rightarrow> bool \<Rightarrow> user_config \<Rightarrow> tracking json_file
     \<Rightarrow> unit outcome \<times> event list \<times> tracking json_file" where
  "process_user running p cfg auto uc tf =
     (if \<not> running then (Returns (), [], tf)
      else if \<not> complete uc then
        (Returns (),
         [Log WARNING (''Eksik kullan'' @ [CHR 0xC4, CHR 0xB1] @ ''c'' @ [CHR 0xC4, CHR 0xB1]
            @ '' konfig'' @ [CHR 0xC3, CHR 0xBC] @ ''rasyonu: '')],
         tf)
      else
        (case fetch_student_data p cfg auto (worker_manager uc) of
           (Returns success, m) \<Rightarrow>
             (Returns (),
              trace (if \<not> success
                     then logger WARNING (failure_warning (get_or_empty (user_name uc))) m
                     else m),
              tf)
         | (Raises err, m) \<Rightarrow>
             (Returns (),
              trace (logger ERROR (failure_error (get_or_empty (user_name uc)) err) m),
              tf)))"

section \<open>Configuration (config.py, users.py)\<close>

text \<open>The content of bot\_settings.json: every key is optional.\<close>

record bot_settings =
  telegram_token :: "string option"
  telegram_chat_id :: "string option"
  request_delay :: "real option"
  session_timeout :: "real option"
  telegram_enabled :: "bool option"
  auto_survey :: "bool option"

definition default_config :: config where
  \<comment> \<open>the values the module assigns before its first \<open>load_settings()\<close>\<close>
  "default_config =
     \<lparr>TELEGRAM_BOT_TOKEN = '''', TELEGRAM_CHAT_ID = '''', SESSION_TIMEOUT = 1800,
      REQUEST_DELAY = 60, TELEGRAM_ENABLED = True, AUTO_SURVEY = False\<rparr>"

definition setting :: "'a option \<Rightarrow> 'a \<Rightarrow> 'a" where
  \<comment> \<open>\<open>settings.get(key, default)\<close>\<close>
  "setting v d = (case v of None \<Rightarrow> d | Some x \<Rightarrow> x)"

definition load_settings :: "string \<Rightarrow> string \<Rightarrow> bot_settings json_file \<Rightarrow> config \<Rightarrow> config" where
  \<comment> \<open>arguments: the environment variables TELEGRAM\_BOT\_TOKEN and TELEGRAM\_CHAT\_ID
      (empty when unset), the settings file, the globals before the call. A file that
      fails to open or parse raises inside the \<open>try\<close>, before any assignment from it.\<close>
  "load_settings env_token env_chat file cfg =
     (let cfg1 = cfg\<lparr>TELEGRAM_BOT_TOKEN := env_token, TELEGRAM_CHAT_ID := env_chat\<rparr>
      in case file of
           Missing \<Rightarrow> cfg1
         | Broken \<Rightarrow> cfg1
         | Content s \<Rightarrow>
             \<lparr>TELEGRAM_BOT_TOKEN =
                (if env_token = [] then setting (telegram_token s) '''' else env_token),
              TELEGRAM_CHAT_ID =
                (if env_chat = [] then setting (telegram_chat_id s) '''' else env_chat),
              SESSION_TIMEOUT = setting (session_timeout s) (SESSION_TIMEOUT cfg1),
              REQUEST_DELAY = setting (request_delay s) (REQUEST_DELAY cfg1),
              TELEGRAM_ENABLED = setting (telegram_enabled s) (TELEGRAM_ENABLED cfg1),
              AUTO_SURVEY = setting (auto_survey s) (AUTO_SURVEY cfg1)\<rparr>)"

definition users_user_list :: "user_config list" where
  \<comment> \<open>\<open>users.user_list\<close>\<close>
  "users_user_list =
     [\<lparr>user_name = Some ''YOUR_STUDENT_ID'', user_password = Some ''YOUR_PASSWORD'',
       user_sapid = Some ''https://ubys.omu.edu.tr/AIS/Student/Class/Index?sapid=YOUR_SAPID_HERE''\<rparr>]"

definition parse_user :: "string \<Rightarrow> user_config list" where
  \<comment> \<open>one comma-separated piece of UBYS\_USERS: kept when it has exactly three parts\<close>
  "parse_user user_data =
     (case split (strip user_data) '':'' of
        [a, b, c] \<Rightarrow> [\<lparr>user_name = Some a, user_password = Some b, user_sapid = Some c\<rparr>]
      | _ \<Rightarrow> [])"

definition load_users :: "user_config list json_file \<Rightarrow> string \<Rightarrow> user_config list" where
  \<comment> \<open>arguments: users\_config.json (holding a list) and the environment variable
      UBYS\_USERS (empty when unset)\<close>
  "load_users file users_env =
     (case file of
        Content us \<Rightarrow> us
      | _ \<Rightarrow> if users_env \<noteq> [] then concat (map parse_user (split users_env '','')) else [])"

section \<open>The monitoring loop (main.py)\<close>

text \<open>
  The places where the loop and its workers read the flag \<open>_bot_running\<close>, which
  \<open>stop_bot\<close> clears from another thread: at the head of iteration k, at the start of
  task i of iteration k, before waiting for the result of task i, after the pool has
  shut down, and at poll n of the sleep after iteration k.
\<close>

datatype checkpoint =
    AtLoopHead nat
  | AtWorker nat nat
  | AtWait nat nat
  | AfterPool nat
  | AtSleep nat nat

text \<open>
  Everything outside the process, by time: time 0 is the start of the program and
  time k the start of iteration k.
\<close>

record env =
  env_TELEGRAM_BOT_TOKEN :: string
  env_TELEGRAM_CHAT_ID :: string
  env_UBYS_USERS :: string
  settings_file :: "nat \<Rightarrow> bot_settings json_file"
  users_file :: "nat \<Rightarrow> user_config list json_file"
  tracking_file :: "tracking json_file"
  portal_of :: "nat \<Rightarrow> nat \<Rightarrow> portal"
    \<comment> \<open>the portal as task i of iteration k sees it\<close>
  slow :: "nat \<Rightarrow> nat \<Rightarrow> bool"
    \<comment> \<open>task i of iteration k has no result within the 30 seconds the loop waits\<close>
  bot_running :: "checkpoint \<Rightarrow> bool"

text \<open>
  The tasks of one iteration in submission order. The pool runs up to \<open>max_workers\<close>
  of them at a time and its shutdown waits for all of them; each task's trace is
  kept on its own.
\<close>

fun run_workers ::
  "env \<Rightarrow> config \<Rightarrow> bool \<Rightarrow> nat \<Rightarrow> nat \<Rightarrow> user_config list \<Rightarrow> tracking json_file
     \<Rightarrow> (unit outcome \<times> event list) list \<times> tracking json_file" where
  "run_workers e cfg auto k i [] tf = ([], tf)"
| "run_workers e cfg auto k i (uc # ucs) tf =
     (case process_user (bot_running e (AtWorker k i)) (portal_of e k i) cfg auto uc tf of
        (r, tr, tf1) \<Rightarrow>
          (case run_workers e cfg auto k (Suc i) ucs tf1 of
             (ws, tf2) \<Rightarrow> ((r, tr) # ws, tf2)))"

fun wait_futures :: "env \<Rightarrow> nat \<Rightarrow> nat \<Rightarrow> unit outcome list \<Rightarrow> event list" where
  \<comment> \<open>the loop over the futures: \<open>future.result(timeout=30)\<close> raises TimeoutError (whose
      \<open>str()\<close> is empty) for a slow task and re-raises what the task raised\<close>
  "wait_futures e k i [] = []"
| "wait_futures e k i (r # rs) =
     (if \<not> bot_running e (AtWait k i) then []
      else
        (if slow e k i
         then [Log ERROR (''Kullan'' @ [CHR 0xC4, CHR 0xB1] @ ''c'' @ [CHR 0xC4, CHR 0xB1] @ '' i''
                 @ [CHR 0xC5, CHR 0x9F] @ ''leme hatas'' @ [CHR 0xC4, CHR 0xB1] @ '': '')]
         else (case r of
                 Returns x \<Rightarrow> []
               | Raises err \<Rightarrow>
                   [Log ERROR (''Kullan'' @ [CHR 0xC4, CHR 0xB1] @ ''c'' @ [CHR 0xC4, CHR 0xB1]
                      @ '' i'' @ [CHR 0xC5, CHR 0x9F] @ ''leme hatas'' @ [CHR 0xC4, CHR 0xB1]
                      @ '': '' @ err)]))
        @ wait_futures e k (Suc i) rs)"

function sleep_loop :: "env \<Rightarrow> nat \<Rightarrow> real \<Rightarrow> real \<Rightarrow> nat \<Rightarrow> nat" where
  \<comment> \<open>\<open>while elapsed < current_delay and _bot_running\<close>, in steps of half a second;
      the result is the number of half-second sleeps\<close>
  "sleep_loop e k current_delay elapsed n =
     (if elapsed < current_delay \<and> bot_running e (AtSleep k n)
      then sleep_loop e k current_delay (elapsed + 0.5) (Suc n)
      else n)"
  by pat_completeness auto
termination
proof (relation "measure (\<lambda>(e, k, current_delay, elapsed, n). nat \<lceil>(current_delay - elapsed) * 2\<rceil>)")
  show "wf (measure (\<lambda>(e, k, current_delay, elapsed, n). nat \<lceil>(current_delay - elapsed) * 2\<rceil>))"
    by simp
next
  fix e :: env and k n :: nat and current_delay elapsed :: real
  assume "elapsed < current_delay \<and> bot_running e (AtSleep k n)"
  then have pos: "0 < (current_delay - elapsed) * 2" by simp
  have "\<lceil>(current_delay - (elapsed + 0.5)) * 2\<rceil> = \<lceil>(current_delay - elapsed) * 2 - 1\<rceil>"
    by (simp add: algebra_simps)
  also have "\<dots> = \<lceil>(current_delay - elapsed) * 2\<rceil> - 1" by simp
  finally have "\<lceil>(current_delay - (elapsed + 0.5)) * 2\<rceil> < \<lceil>(current_delay - elapsed) * 2\<rceil>"
    by simp
  moreover have "0 < \<lceil>(current_delay - elapsed) * 2\<rceil>" using pos by simp
  ultimately show "((e, k, current_delay, elapsed + 0.5, Suc n), (e, k, current_delay, elapsed, n))
      \<in> measure (\<lambda>(e, k, current_delay, elapsed, n). nat \<lceil>(current_delay - elapsed) * 2\<rceil>)"
    by simp
qed

declare sleep_loop.simps [simp del]

record iteration =
  number :: nat
  settings :: config
    \<comment> \<open>the globals after this iteration's \<open>config.load_settings()\<close>\<close>
  max_workers :: nat
  submitted :: "user_config list"
  workers :: "(unit outcome \<times> event list) list"
    \<comment> \<open>for each submitted task: how \<open>process_user\<close> ended, and its trace\<close>
  wait_log :: "event list"
  current_delay :: "real option"
    \<comment> \<open>the delay read after the pool, unless the loop was stopped before\<close>
  sleeps :: nat

definition run_iteration ::
  "env \<Rightarrow> bool \<Rightarrow> user_config list \<Rightarrow> nat \<Rightarrow> nat \<Rightarrow> config \<Rightarrow> tracking json_file
     \<Rightarrow> iteration \<times> tracking json_file" where
  "run_iteration e auto user_list mw k cfg tf =
     (let cfg' = load_settings (env_TELEGRAM_BOT_TOKEN e) (env_TELEGRAM_CHAT_ID e)
                   (settings_file e k) cfg
      in case run_workers e cfg' auto k 0 user_list tf of
           (ws, tf') \<Rightarrow>
             (\<lparr>number = k, settings = cfg', max_workers = mw, submitted = user_list,
               workers = ws, wait_log = wait_futures e k 0 (map fst ws),
               current_delay =
                 (if bot_running e (AfterPool k) then Some (REQUEST_DELAY cfg') else None),
               sleeps =
                 (if bot_running e (AfterPool k) then sleep_loop e k (REQUEST_DELAY cfg') 0 0
                  else 0)\<rparr>,
              tf'))"

text \<open>
  The \<open>while _bot_running\<close> loop, cut off after a given number of iterations; the
  orchestrator's own informational log lines, which format numbers, are left out.
\<close>

fun monitoring_loop ::
  "env \<Rightarrow> bool \<Rightarrow> user_config list \<Rightarrow> nat \<Rightarrow> nat \<Rightarrow> nat \<Rightarrow> config \<Rightarrow> tracking json_file
     \<Rightarrow> iteration list" where
  "monitoring_loop e auto user_list mw 0 k cfg tf = []"
| "monitoring_loop e auto user_list mw (Suc fuel) k cfg tf =
     (if \<not> bot_running e (AtLoopHead (Suc k)) then []
      else
        (case run_iteration e auto user_list mw (Suc k) cfg tf of
           (it, tf') \<Rightarrow>
             it # (if current_delay it = None then []
                   else monitoring_loop e auto user_list mw fuel (Suc k) (settings it) tf')))"

definition startup_config :: "env \<Rightarrow> config" where
  \<comment> \<open>the globals after the \<open>load_settings()\<close> that runs when config.py is imported\<close>
  "startup_config e =
     load_settings (env_TELEGRAM_BOT_TOKEN e) (env_TELEGRAM_CHAT_ID e) (settings_file e 0)
       default_config"

definition login_AUTO_SURVEY :: "env \<Rightarrow> bool" where
  \<comment> \<open>login.py: \<open>from config import AUTO_SURVEY\<close> binds the value at import time\<close>
  "login_AUTO_SURVEY e = AUTO_SURVEY (startup_config e)"

definition startup_users :: "env \<Rightarrow> user_config list" where
  \<comment> \<open>\<open>config.load_users_from_env() or users.user_list\<close>, evaluated before the loop\<close>
  "startup_users e =
     (let loaded = load_users (users_file e 0) (env_UBYS_USERS e)
      in if loaded \<noteq> [] then loaded else users_user_list)"

definition run_monitoring_loop :: "env \<Rightarrow> nat \<Rightarrow> iteration list" where
  \<comment> \<open>the iterations the loop runs, at most \<open>fuel\<close> of them\<close>
  "run_monitoring_loop e fuel =
     (let user_list = startup_users e
      in if user_list = [] then []
         else monitoring_loop e (login_AUTO_SURVEY e) user_list (min 3 (length user_list))
                fuel 0 (startup_config e) (tracking_file e))"

section \<open>Example inputs\<close>

definition alice :: user_config where
  "alice = \<lparr>user_name = Some ''alice'', user_password = Some ''secret'',
            user_sapid = Some ''https://ubys.omu.edu.tr/AIS/Student/Class/Index?sapid=1''\<rparr>"

definition bob :: user_config where
  "bob = \<lparr>user_name = Some ''bob'', user_password = Some ''hunter2'',
          user_sapid = Some ''https://ubys.omu.edu.tr/AIS/Student/Class/Index?sapid=2''\<rparr>"

definition refusing_portal :: portal where
  \<comment> \<open>every login is refused\<close>
  "refusing_portal =
     \<lparr>login_reply = (\<lambda>k. Returns False), page_reply = (\<lambda>a k. Returns True), clock = (\<lambda>k. 0)\<rparr>"

definition crashing_portal :: portal where
  \<comment> \<open>every login raises\<close>
  "crashing_portal =
     \<lparr>login_reply = (\<lambda>k. Raises ''boom''), page_reply = (\<lambda>a k. Returns True),
      clock = (\<lambda>k. 0)\<rparr>"

definition expiring_portal :: portal where
  \<comment> \<open>the first login succeeds, half an hour passes before the expiry check, and the
      renewal is refused\<close>
  "expiring_portal =
     \<lparr>login_reply = (\<lambda>k. if k = 0 then Returns True else Returns False),
      page_reply = (\<lambda>a k. Returns True),
      clock = (\<lambda>k. if k = 0 then 100 else 2000)\<rparr>"

definition quick_settings :: bot_settings where
  "quick_settings =
     \<lparr>telegram_token = None, telegram_chat_id = None, request_delay = Some 5,
      session_timeout = None, telegram_enabled = None, auto_survey = Some True\<rparr>"

definition example_env :: env where
  \<comment> \<open>after the first iteration has started, bob is added to users\_config.json and
      bot\_settings.json appears with a delay of five seconds; every login raises\<close>
  "example_env =
     \<lparr>env_TELEGRAM_BOT_TOKEN = '''', env_TELEGRAM_CHAT_ID = '''', env_UBYS_USERS = '''',
      settings_file = (\<lambda>k. if k \<le> 1 then Missing else Content quick_settings),
      users_file = (\<lambda>k. if k \<le> 1 then Content [alice] else Content [alice, bob]),
      tracking_file = Missing,
      portal_of = (\<lambda>k i. crashing_portal),
      slow = (\<lambda>k i. False),
      bot_running = (\<lambda>c. True)\<rparr>"

section \<open>Properties of the change detection\<close>

subsection \<open>Dictionaries built from a list\<close>

lemma dict_keys_dict_set_old:
  "k \<in> set (dict_keys d) \<Longrightarrow> dict_keys (dict_set d k v) = dict_keys d"
  by (induction d) (force simp: dict_keys_def)+

lemma dict_keys_dict_set_fresh:
  "k \<notin> set (dict_keys d) \<Longrightarrow> dict_keys (dict_set d k v) = dict_keys d @ [k]"
  by (induction d) (auto simp: dict_keys_def)

lemma dict_keys_dict_set:
  "dict_keys (dict_set d k v) =
     (if k \<in> set (dict_keys d) then dict_keys d else dict_keys d @ [k])"
  by (simp add: dict_keys_dict_set_old dict_keys_dict_set_fresh)

lemma dict_get_dict_set: "dict_get (dict_set d k v) = (dict_get d)(k \<mapsto> v)"
  by (induction d) (auto simp: dict_get_def)

lemma dict_get_None: "dict_get d k = None \<longleftrightarrow> k \<notin> set (dict_keys d)"
  by (simp add: dict_get_def dict_keys_def map_of_eq_None_iff)

lemma dict_keys_foldl:
  "set (dict_keys (foldl (\<lambda>d c. dict_set d (f c) c) d0 cs)) = set (dict_keys d0) \<union> f ` set cs"
  by (induction cs arbitrary: d0) (auto simp: dict_keys_dict_set)

lemma distinct_foldl:
  "distinct (dict_keys d0) \<Longrightarrow>
   distinct (dict_keys (foldl (\<lambda>d c. dict_set d (f c) c) d0 cs))"
  by (induction cs arbitrary: d0) (auto simp: dict_keys_dict_set)

lemma dict_get_foldl:
  "dict_get (foldl (\<lambda>d c. dict_set d (f c) c) d0 cs) k =
     (case filter (\<lambda>c. f c = k) cs of [] \<Rightarrow> dict_get d0 k | x # xs \<Rightarrow> Some (last (x # xs)))"
proof (induction cs arbitrary: d0)
  case Nil
  show ?case by simp
next
  case (Cons c cs)
  show ?case
    by (cases "filter (\<lambda>c. f c = k) cs") (auto simp: Cons.IH dict_get_dict_set)
qed

lemma set_keys_to_dict: "set (dict_keys (to_dict cs)) = course_name ` set cs"
  by (simp add: to_dict_def dict_keys_foldl) (simp add: dict_keys_def)

lemma distinct_keys_to_dict: "distinct (dict_keys (to_dict cs))"
  using distinct_foldl[of "[]" course_name cs] by (simp add: to_dict_def dict_keys_def)

lemma count_list_distinct:
  "distinct xs \<Longrightarrow> count_list xs x = (if x \<in> set xs then 1 else 0)"
  by (induction xs) auto

subsection \<open>The two loops of \<open>_compare_courses\<close>\<close>

lemma classified_classify:
  "count_list (classified (classify od ch item)) x =
     count_list (classified ch) x + (if fst item = x then 1 else 0)"
  by (cases item) (auto simp: classify_def classified_def split: option.splits)

lemma classified_foldl_classify:
  "count_list (classified (foldl (classify od) ch items)) x =
     count_list (classified ch) x + count_list (map fst items) x"
  by (induction items arbitrary: ch) (auto simp: classified_classify)

lemma classified_drop_removed:
  "count_list (classified (drop_removed nd ch k)) x =
     count_list (classified ch) x + (if \<not> dict_has nd k \<and> k = x then 1 else 0)"
  by (auto simp: drop_removed_def classified_def)

lemma classified_foldl_drop_removed:
  "count_list (classified (foldl (drop_removed nd) ch ks)) x =
     count_list (classified ch) x + count_list (filter (\<lambda>k. \<not> dict_has nd k) ks) x"
  by (induction ks arbitrary: ch) (auto simp: classified_drop_removed)

lemma count_classified:
  "count_list (classified (compare_courses old_courses new_courses)) n =
     (if n \<in> course_name ` set old_courses \<union> course_name ` set new_courses then 1 else 0)"
proof -
  let ?od = "to_dict old_courses" and ?nd = "to_dict new_courses"
  have "count_list (classified (compare_courses old_courses new_courses)) n =
          count_list (dict_keys ?nd) n
          + count_list (filter (\<lambda>k. \<not> dict_has ?nd k) (dict_keys ?od)) n"
    by (simp add: compare_courses_def Let_def classified_foldl_drop_removed
        classified_foldl_classify) (simp add: classified_def dict_keys_def)
  also have "\<dots> =
      (if n \<in> course_name ` set old_courses \<union> course_name ` set new_courses then 1 else 0)"
    using distinct_keys_to_dict[of new_courses] distinct_keys_to_dict[of old_courses]
    by (auto simp: count_list_distinct dict_has_def set_keys_to_dict)
  finally show ?thesis .
qed


lemma dict_has_get: "dict_has d k \<longleftrightarrow> dict_get d k \<noteq> None"
  by (simp add: dict_has_def dict_get_None)

lemma classify_new:
  "map n_name (new (classify od ch item)) =
     map n_name (new ch) @ filter (\<lambda>k. \<not> dict_has od k) [fst item]"
  by (cases item) (simp add: classify_def dict_has_get split: option.splits)

lemma classify_removed: "removed (classify od ch item) = removed ch"
  by (cases item) (simp add: classify_def split: option.splits)

lemma classify_known:
  "set (map u_name (updated (classify od ch item))) \<union> set (no_change (classify od ch item)) =
     set (map u_name (updated ch)) \<union> set (no_change ch) \<union> set (filter (dict_has od) [fst item])"
  by (cases item) (auto simp: classify_def dict_has_get split: option.splits)

lemma foldl_classify_new:
  "map n_name (new (foldl (classify od) ch items)) =
     map n_name (new ch) @ filter (\<lambda>k. \<not> dict_has od k) (map fst items)"
  by (induction items arbitrary: ch) (simp_all add: classify_new)

lemma foldl_classify_removed: "removed (foldl (classify od) ch items) = removed ch"
  by (induction items arbitrary: ch) (simp_all add: classify_removed)

lemma foldl_classify_known:
  "set (map u_name (updated (foldl (classify od) ch items)))
     \<union> set (no_change (foldl (classify od) ch items)) =
   set (map u_name (updated ch)) \<union> set (no_change ch) \<union> set (filter (dict_has od) (map fst items))"
proof (induction items arbitrary: ch)
  case Nil
  show ?case by simp
next
  case (Cons item items)
  have "set (map u_name (updated (foldl (classify od) ch (item # items))))
          \<union> set (no_change (foldl (classify od) ch (item # items))) =
        set (map u_name (updated (classify od ch item))) \<union> set (no_change (classify od ch item))
          \<union> set (filter (dict_has od) (map fst items))"
    using Cons.IH[of "classify od ch item"] by simp
  also have "\<dots> = set (map u_name (updated ch)) \<union> set (no_change ch)
          \<union> set (filter (dict_has od) [fst item]) \<union> set (filter (dict_has od) (map fst items))"
    by (simp only: classify_known)
  also have "\<dots> = set (map u_name (updated ch)) \<union> set (no_change ch)
          \<union> set (filter (dict_has od) (map fst (item # items)))"
    by auto
  finally show ?case .
qed

lemma foldl_drop_removed_new: "new (foldl (drop_removed nd) ch ks) = new ch"
  by (induction ks arbitrary: ch) (simp_all add: drop_removed_def)

lemma foldl_drop_removed_updated: "updated (foldl (drop_removed nd) ch ks) = updated ch"
  by (induction ks arbitrary: ch) (simp_all add: drop_removed_def)

lemma foldl_drop_removed_no_change: "no_change (foldl (drop_removed nd) ch ks) = no_change ch"
  by (induction ks arbitrary: ch) (simp_all add: drop_removed_def)

lemma foldl_drop_removed_removed:
  "removed (foldl (drop_removed nd) ch ks) = removed ch @ filter (\<lambda>k. \<not> dict_has nd k) ks"
  by (induction ks arbitrary: ch) (simp_all add: drop_removed_def)

text \<open>
  Claim C1. For every pair of course lists, every course name that is a key of the old
  or of the new name-to-course mapping occurs exactly once in the four classes new,
  updated, removed and no\_change taken together, and no other name occurs in them.
  The names classified new are the keys of the new mapping missing from the old one,
  the names classified removed are the keys of the old mapping missing from the new
  one, and updated and no\_change together hold the keys common to both.
\<close>

theorem compare_courses_exhaustive_disjoint:
  "count_list (classified (compare_courses old_courses new_courses)) n =
     (if n \<in> set (dict_keys (to_dict old_courses)) \<union> set (dict_keys (to_dict new_courses))
      then 1 else 0)
   \<and> set (map n_name (new (compare_courses old_courses new_courses))) =
       set (dict_keys (to_dict new_courses)) - set (dict_keys (to_dict old_courses))
   \<and> set (removed (compare_courses old_courses new_courses)) =
       set (dict_keys (to_dict old_courses)) - set (dict_keys (to_dict new_courses))
   \<and> set (map u_name (updated (compare_courses old_courses new_courses)))
       \<union> set (no_change (compare_courses old_courses new_courses)) =
       set (dict_keys (to_dict old_courses)) \<inter> set (dict_keys (to_dict new_courses))"
proof -
  let ?od = "to_dict old_courses" and ?nd = "to_dict new_courses"
  let ?cs = "compare_courses old_courses new_courses"
  have cs: "?cs = foldl (drop_removed ?nd)
      (foldl (classify ?od) \<lparr>new = [], updated = [], removed = [], no_change = []\<rparr> ?nd)
      (dict_keys ?od)"
    by (simp add: compare_courses_def Let_def)
  have 1: "count_list (classified ?cs) n =
      (if n \<in> set (dict_keys ?od) \<union> set (dict_keys ?nd) then 1 else 0)"
    by (simp add: count_classified set_keys_to_dict)
  have "map n_name (new ?cs) = filter (\<lambda>k. \<not> dict_has ?od k) (dict_keys ?nd)"
    by (simp add: cs foldl_drop_removed_new foldl_classify_new dict_keys_def)
  then have 2: "set (map n_name (new ?cs)) = set (dict_keys ?nd) - set (dict_keys ?od)"
    by (auto simp: dict_has_def)
  have "removed ?cs = filter (\<lambda>k. \<not> dict_has ?nd k) (dict_keys ?od)"
    by (simp add: cs foldl_drop_removed_removed foldl_classify_removed)
  then have 3: "set (removed ?cs) = set (dict_keys ?od) - set (dict_keys ?nd)"
    by (auto simp: dict_has_def)
  have "set (map u_name (updated ?cs)) \<union> set (no_change ?cs) =
      set (filter (dict_has ?od) (dict_keys ?nd))"
    using foldl_classify_known[of ?od "\<lparr>new = [], updated = [], removed = [], no_change = []\<rparr>" ?nd]
    by (simp add: cs foldl_drop_removed_updated foldl_drop_removed_no_change dict_keys_def)
  then have 4: "set (map u_name (updated ?cs)) \<union> set (no_change ?cs) =
      set (dict_keys ?od) \<inter> set (dict_keys ?nd)"
    by (auto simp: dict_has_def)
  from 1 2 3 4 show ?thesis by blast
qed

text \<open>
  Claim C10. A course without a "name" field is keyed under the empty string. In the
  name-to-course mapping of one snapshot the empty string is a key at most once, its
  entry is the last course of the list that is keyed under the empty string, and the
  result of the comparison mentions the empty course name at most once.
\<close>

theorem nameless_courses_collapse:
  "course_name (c\<lparr>name := None\<rparr>) = ''''
   \<and> dict_get (to_dict cs) '''' =
       (case filter (\<lambda>c. course_name c = '''') cs of
          [] \<Rightarrow> None
        | x # xs \<Rightarrow> Some (last (x # xs)))
   \<and> count_list (dict_keys (to_dict cs)) '''' \<le> 1
   \<and> count_list (classified (compare_courses old_courses new_courses)) '''' \<le> 1"
proof -
  have 1: "course_name (c\<lparr>name := None\<rparr>) = ''''"
    by (simp add: course_name_def)
  have 2: "dict_get (to_dict cs) '''' =
       (case filter (\<lambda>c. course_name c = '''') cs of
          [] \<Rightarrow> None
        | x # xs \<Rightarrow> Some (last (x # xs)))"
    unfolding to_dict_def by (simp only: dict_get_foldl) (simp add: dict_get_def split: list.splits)
  have 3: "count_list (dict_keys (to_dict cs)) '''' \<le> 1"
    by (simp add: count_list_distinct distinct_keys_to_dict)
  have 4: "count_list (classified (compare_courses old_courses new_courses)) '''' \<le> 1"
    by (simp add: count_classified)
  from 1 2 3 4 show ?thesis by blast
qed

subsection \<open>The diff of two exam lists\<close>

text \<open>
  Claim C2, evaluated. With old exams "Midterm: 70" and new exams "Midterm: 85" the
  diff is the single line "Yeni: Midterm: 85": the entry is reported as new, not as
  changed from 70 to 85. The same happens when both entries use the separator "::"
  that the update branch splits on. With no old exams, "Final: 90" is reported as
  new. The update line with the old and the new score is produced only when the new
  entry itself is already in the old list, after another old entry with the same
  label.
\<close>

theorem compare_exams_changed_score_reported_new:
  "compare_exams [''Midterm: 70''] [''Midterm: 85''] = [''Yeni: Midterm: 85'']
   \<and> compare_exams [''Midterm:: 70''] [''Midterm:: 85''] = [''Yeni: Midterm:: 85'']
   \<and> compare_exams [] [''Final: 90''] = [''Yeni: Final: 90'']
   \<and> compare_exams [''Midterm:: 70'', ''Midterm:: 85''] [''Midterm:: 85''] =
       [guncellendi @ '': Midterm (70 '' @ arrow @ '' 85)'']"
proof -
  have new_lines:
    "compare_exams [''Midterm: 70''] [''Midterm: 85''] = [''Yeni: Midterm: 85'']"
    "compare_exams [''Midterm:: 70''] [''Midterm:: 85''] = [''Yeni: Midterm:: 85'']"
    "compare_exams [] [''Final: 90''] = [''Yeni: Final: 90'']"
    by (simp_all add: compare_exams_def exam_line_def)
  have update_line:
    "compare_exams [''Midterm:: 70'', ''Midterm:: 85''] [''Midterm:: 85''] =
       [guncellendi @ '': Midterm (70 '' @ arrow @ '' 85)'']"
    by code_simp
  from new_lines update_line show ?thesis by (simp only: simp_thms)
qed

lemma exam_line_not_in_old:
  "new_exam \<notin> set old_es \<Longrightarrow> exam_line old_es new_exam = [''Yeni: '' @ new_exam]"
  by (simp add: exam_line_def)

subsection \<open>Notifications\<close>

lemma kinds_append: "kinds (xs @ ys) = kinds xs @ kinds ys"
  by (simp add: kinds_def)

lemma kinds_notify_new:
  "kinds (notify_new sid cs ns) = kinds ns @ replicate (length cs) (''new_course'', ''info'')"
proof (induction cs arbitrary: ns)
  case Nil
  show ?case by simp
next
  case (Cons c cs)
  have "kinds [new_course_notification sid c] = [(''new_course'', ''info'')]"
    by (simp add: kinds_def new_course_notification_def)
  then show ?case
    by (simp add: Cons.IH kinds_append replicate_app_Cons_same)
qed

lemma kinds_notify_exam_changes:
  "kinds (notify_exam_changes sid cname chs ns) =
     kinds ns @ replicate (length chs) (''grade_update'', ''warning'')"
proof (induction chs arbitrary: ns)
  case Nil
  show ?case by simp
next
  case (Cons c cs)
  have "kinds [grade_update_notification sid cname c] = [(''grade_update'', ''warning'')]"
    by (simp add: kinds_def grade_update_notification_def)
  then show ?case
    by (simp add: Cons.IH kinds_append replicate_app_Cons_same)
qed

lemma kinds_notify_updated:
  "kinds (notify_updated sid us ns) =
     kinds ns @ concat (map (\<lambda>u. replicate (if changes u = [] then 1 else length (changes u))
                                   (''grade_update'', ''warning'')) us)"
proof (induction us arbitrary: ns)
  case Nil
  show ?case by simp
next
  case (Cons u us)
  have "kinds [generic_update_notification sid (u_name u)] = [(''grade_update'', ''warning'')]"
    by (simp add: kinds_def generic_update_notification_def)
  then show ?case
    by (simp add: Cons.IH kinds_append kinds_notify_exam_changes)
qed

lemma kinds_notify_removed:
  "kinds (notify_removed sid rs ns) =
     kinds ns @ replicate (length rs) (''course_removed'', ''info'')"
proof (induction rs arbitrary: ns)
  case Nil
  show ?case by simp
next
  case (Cons c cs)
  have "kinds [course_removed_notification sid c] = [(''course_removed'', ''info'')]"
    by (simp add: kinds_def course_removed_notification_def)
  then show ?case
    by (simp add: Cons.IH kinds_append replicate_app_Cons_same)
qed

lemma notify_new_eq:
  "notify_new sid cs ns = ns @ map (new_course_notification sid) cs"
  by (induction cs arbitrary: ns) simp_all

lemma notify_exam_changes_eq:
  "notify_exam_changes sid cname chs ns = ns @ map (grade_update_notification sid cname) chs"
  by (induction chs arbitrary: ns) simp_all

lemma notify_updated_eq:
  "notify_updated sid us ns =
     ns @ concat (map (\<lambda>u. if changes u \<noteq> []
                              then map (grade_update_notification sid (u_name u)) (changes u)
                              else [generic_update_notification sid (u_name u)]) us)"
  by (induction us arbitrary: ns) (simp_all add: notify_exam_changes_eq)

lemma notify_removed_eq:
  "notify_removed sid rs ns = ns @ map (course_removed_notification sid) rs"
  by (induction rs arbitrary: ns) simp_all

lemma change_notifications_eq:
  "change_notifications sid detail ns =
     ns @ map (new_course_notification sid) (new detail)
        @ concat (map (\<lambda>u. if changes u \<noteq> []
                                then map (grade_update_notification sid (u_name u)) (changes u)
                                else [generic_update_notification sid (u_name u)])
                      (updated detail))
        @ map (course_removed_notification sid) (removed detail)"
proof -
  have n: "(if new detail \<noteq> [] then notify_new sid (new detail) ns else ns) =
      ns @ map (new_course_notification sid) (new detail)"
    by (simp add: notify_new_eq)
  have u: "(if updated detail \<noteq> [] then notify_updated sid (updated detail) ns1 else ns1) =
      ns1 @ concat (map (\<lambda>u. if changes u \<noteq> []
                                then map (grade_update_notification sid (u_name u)) (changes u)
                                else [generic_update_notification sid (u_name u)])
                      (updated detail))" for ns1
    by (simp add: notify_updated_eq)
  have r: "(if removed detail \<noteq> [] then notify_removed sid (removed detail) ns2 else ns2) =
      ns2 @ map (course_removed_notification sid) (removed detail)" for ns2
    by (simp add: notify_removed_eq)
  show ?thesis
    unfolding change_notifications_def Let_def by (simp only: r u n append_assoc)
qed

lemma kinds_change_notifications:
  "kinds (change_notifications sid detail ns) =
     kinds ns
     @ replicate (length (new detail)) (''new_course'', ''info'')
     @ concat (map (\<lambda>u. replicate (if changes u = [] then 1 else length (changes u))
                            (''grade_update'', ''warning'')) (updated detail))
     @ replicate (length (removed detail)) (''course_removed'', ''info'')"
proof -
  have n: "kinds (if new detail \<noteq> [] then notify_new sid (new detail) ns else ns) =
      kinds ns @ replicate (length (new detail)) (''new_course'', ''info'')"
    by (simp add: kinds_notify_new)
  have u: "kinds (if updated detail \<noteq> [] then notify_updated sid (updated detail) ns1 else ns1) =
      kinds ns1 @ concat (map (\<lambda>u. replicate (if changes u = [] then 1 else length (changes u))
                            (''grade_update'', ''warning'')) (updated detail))" for ns1
    by (simp add: kinds_notify_updated)
  have r: "kinds (if removed detail \<noteq> [] then notify_removed sid (removed detail) ns2 else ns2) =
      kinds ns2 @ replicate (length (removed detail)) (''course_removed'', ''info'')" for ns2
    by (simp add: kinds_notify_removed)
  show ?thesis
    unfolding change_notifications_def Let_def by (simp only: r u n append_assoc)
qed

lemma kinds_foldl_change_notifications:
  "kinds (foldl (\<lambda>ns (sid, e). change_notifications sid (course_changes e) ns) acc items) =
     kinds acc
     @ concat (map (\<lambda>(sid, e).
          replicate (length (new (course_changes e))) (''new_course'', ''info'')
          @ concat (map (\<lambda>u. replicate (if changes u = [] then 1 else length (changes u))
                                 (''grade_update'', ''warning'')) (updated (course_changes e)))
          @ replicate (length (removed (course_changes e))) (''course_removed'', ''info''))
        items)"
proof (induction items arbitrary: acc)
  case Nil
  show ?case by simp
next
  case (Cons item items)
  obtain sid e where item: "item = (sid, e)" by (cases item)
  show ?case
    by (simp only: item foldl_Cons prod.case Cons.IH kinds_change_notifications
        list.map concat.simps append_assoc)
qed

lemma foldl_change_notifications:
  "foldl (\<lambda>ns (sid, e). change_notifications sid (course_changes e) ns) acc items =
     acc @ concat (map (\<lambda>(sid, e). change_notifications sid (course_changes e) []) items)"
proof (induction items arbitrary: acc)
  case Nil
  show ?case by simp
next
  case (Cons item items)
  obtain sid e where item: "item = (sid, e)" by (cases item)
  have step: "change_notifications sid (course_changes e) acc =
      acc @ change_notifications sid (course_changes e) []"
    by (simp add: change_notifications_eq)
  show ?case
    by (simp only: item foldl_Cons prod.case Cons.IH step list.map concat.simps append_assoc)
qed

text \<open>
  Claim C3. For every change set, and whatever notifications were built before it,
  the loop body appends, in order: one event of type new\_course with severity info
  for each course classified new; for each updated course one event of type
  grade\_update with severity warning per diff line, or exactly one generic such event
  when the course has no diff line; and one event of type course\_removed with
  severity info for each removed course name. It appends no other event and leaves
  the earlier ones as they were. \<open>get_notifications\<close> returns exactly these events for
  the change sets \<open>detect_changes\<close> found, student after student.
\<close>

theorem notifications_per_change_set:
  "kinds (change_notifications sid detail ns) =
     kinds ns
     @ replicate (length (new detail)) (''new_course'', ''info'')
     @ concat (map (\<lambda>u. replicate (if changes u = [] then 1 else length (changes u))
                            (''grade_update'', ''warning'')) (updated detail))
     @ replicate (length (removed detail)) (''course_removed'', ''info'')
   \<and> change_notifications sid detail ns =
       ns @ map (new_course_notification sid) (new detail)
          @ concat (map (\<lambda>u. if changes u \<noteq> []
                                  then map (grade_update_notification sid (u_name u)) (changes u)
                                  else [generic_update_notification sid (u_name u)])
                        (updated detail))
          @ map (course_removed_notification sid) (removed detail)
   \<and> fst (get_notifications writable grades_file changes_file) =
       concat (map (\<lambda>(sid, e). change_notifications sid (course_changes e) [])
                   (fst (detect_changes writable grades_file changes_file)))
   \<and> kinds (fst (get_notifications writable grades_file changes_file)) =
       concat (map (\<lambda>(sid, e).
          replicate (length (new (course_changes e))) (''new_course'', ''info'')
          @ concat (map (\<lambda>u. replicate (if changes u = [] then 1 else length (changes u))
                                 (''grade_update'', ''warning'')) (updated (course_changes e)))
          @ replicate (length (removed (course_changes e))) (''course_removed'', ''info''))
        (fst (detect_changes writable grades_file changes_file)))"
proof -
  obtain all_changes cf' where d: "detect_changes writable grades_file changes_file = (all_changes, cf')"
    by (cases "detect_changes writable grades_file changes_file")
  have g: "fst (get_notifications writable grades_file changes_file) =
      foldl (\<lambda>ns (sid, e). change_notifications sid (course_changes e) ns) [] all_changes"
    by (simp add: get_notifications_def d)
  have k0: "kinds [] = []" by (simp add: kinds_def)
  have 3: "fst (get_notifications writable grades_file changes_file) =
       concat (map (\<lambda>(sid, e). change_notifications sid (course_changes e) [])
                   (fst (detect_changes writable grades_file changes_file)))"
    by (simp add: g d foldl_change_notifications)
  have 4: "kinds (fst (get_notifications writable grades_file changes_file)) =
       concat (map (\<lambda>(sid, e).
          replicate (length (new (course_changes e))) (''new_course'', ''info'')
          @ concat (map (\<lambda>u. replicate (if changes u = [] then 1 else length (changes u))
                                 (''grade_update'', ''warning'')) (updated (course_changes e)))
          @ replicate (length (removed (course_changes e))) (''course_removed'', ''info''))
        (fst (detect_changes writable grades_file changes_file)))"
    by (simp add: g d kinds_foldl_change_notifications k0)
  from kinds_change_notifications[of sid detail ns] change_notifications_eq[of sid detail ns] 3 4
  show ?thesis by (simp only: simp_thms)
qed

theorem notifications_per_change_set_witness:
  "kinds (fst (get_notifications True
      (Content [(''s1'', \<lparr>last_updated = Some ''2024-01-01 10:00:00'',
                  courses = Some [\<lparr>name = Some ''Math'', exams = Some [''Midterm: 70'']\<rparr>]\<rparr>),
                (''s2'', \<lparr>last_updated = Some ''2024-01-01 10:00:05'',
                  courses = Some [\<lparr>name = Some ''Physics'', exams = Some []\<rparr>]\<rparr>)])
      Missing)) =
     [(''new_course'', ''info''), (''new_course'', ''info'')]
   \<and> kinds (change_notifications ''s1''
        \<lparr>new = [], updated = [\<lparr>u_name = ''Math'', old_exams = [''Midterm: 70''],
                                 new_exams = [''Midterm: 85''], changes = [''Yeni: Midterm: 85'']\<rparr>,
                               \<lparr>u_name = ''Art'', old_exams = [''x''], new_exams = [],
                                 changes = []\<rparr>],
         removed = [''Gone''], no_change = []\<rparr>
        [course_removed_notification ''s0'' ''Old'']) =
     [(''course_removed'', ''info''), (''grade_update'', ''warning''),
      (''grade_update'', ''warning''), (''course_removed'', ''info'')]"
proof -
  have d: "fst (detect_changes True
      (Content [(''s1'', \<lparr>last_updated = Some ''2024-01-01 10:00:00'',
                  courses = Some [\<lparr>name = Some ''Math'', exams = Some [''Midterm: 70'']\<rparr>]\<rparr>),
                (''s2'', \<lparr>last_updated = Some ''2024-01-01 10:00:05'',
                  courses = Some [\<lparr>name = Some ''Physics'', exams = Some []\<rparr>]\<rparr>)])
      Missing) =
    [(''s1'', \<lparr>timestamp = ''2024-01-01 10:00:00'',
              course_changes = \<lparr>new = [\<lparr>n_name = ''Math'', n_exams = [''Midterm: 70'']\<rparr>],
                                  updated = [], removed = [], no_change = []\<rparr>,
              current_courses = [\<lparr>name = Some ''Math'', exams = Some [''Midterm: 70'']\<rparr>]\<rparr>),
     (''s2'', \<lparr>timestamp = ''2024-01-01 10:00:05'',
              course_changes = \<lparr>new = [\<lparr>n_name = ''Physics'', n_exams = []\<rparr>],
                                  updated = [], removed = [], no_change = []\<rparr>,
              current_courses = [\<lparr>name = Some ''Physics'', exams = Some []\<rparr>]\<rparr>)]"
    by code_simp
  have k: "kinds [course_removed_notification ''s0'' ''Old''] = [(''course_removed'', ''info'')]"
    by (simp add: kinds_def course_removed_notification_def)
  note t = notifications_per_change_set[where writable = True
        and grades_file = "Content [(''s1'', \<lparr>last_updated = Some ''2024-01-01 10:00:00'',
                  courses = Some [\<lparr>name = Some ''Math'', exams = Some [''Midterm: 70'']\<rparr>]\<rparr>),
                (''s2'', \<lparr>last_updated = Some ''2024-01-01 10:00:05'',
                  courses = Some [\<lparr>name = Some ''Physics'', exams = Some []\<rparr>]\<rparr>)]"
        and changes_file = Missing and sid = "''s1''"
        and detail = "\<lparr>new = [], updated = [\<lparr>u_name = ''Math'', old_exams = [''Midterm: 70''],
                                 new_exams = [''Midterm: 85''], changes = [''Yeni: Midterm: 85'']\<rparr>,
                               \<lparr>u_name = ''Art'', old_exams = [''x''], new_exams = [],
                                 changes = []\<rparr>],
         removed = [''Gone''], no_change = []\<rparr>"
        and ns = "[course_removed_notification ''s0'' ''Old'']"]
  show ?thesis
    using t[THEN conjunct1] t[THEN conjunct2, THEN conjunct2, THEN conjunct2]
    by (simp add: d k)
qed

subsection \<open>Detecting twice\<close>

lemma dict_get_distinct:
  "distinct (dict_keys d) \<Longrightarrow> (k, v) \<in> set d \<Longrightarrow> dict_get d k = Some v"
  by (simp add: dict_get_def dict_keys_def)

lemma foldl_detect_student_same:
  "(\<And>sid d. (sid, d) \<in> set items \<Longrightarrow> previous_courses_of prev sid = data_courses d) \<Longrightarrow>
   foldl (detect_student prev) acc items = acc"
  by (induction items arbitrary: acc) (auto simp: detect_student_def)

lemma detect_changes_persists:
  "A \<noteq> [] \<Longrightarrow> snd (detect_changes True (Content A) f0) = Content A"
  by (simp add: detect_changes_def load_grades_def save_changes_def Let_def)

lemma detect_changes_same:
  assumes "distinct (dict_keys A)"
  shows "fst (detect_changes True (Content A) (Content A)) = []"
proof -
  have "previous_courses_of A sid = data_courses d" if "(sid, d) \<in> set A" for sid d
    using dict_get_distinct[OF assms that] by (simp add: previous_courses_of_def)
  then have "foldl (detect_student A) [] A = []"
    by (rule foldl_detect_student_same)
  then show ?thesis
    by (simp add: detect_changes_def load_grades_def load_previous_changes_def Let_def)
qed

lemma foldl_classify_same:
  "(\<And>k c. (k, c) \<in> set items \<Longrightarrow> dict_get od k = Some c) \<Longrightarrow>
   foldl (classify od) ch items = ch\<lparr>no_change := no_change ch @ map fst items\<rparr>"
proof (induction items arbitrary: ch)
  case Nil
  show ?case by simp
next
  case (Cons item items)
  obtain k c where item: "item = (k, c)" by (cases item)
  have "dict_get od k = Some c" using Cons.prems[of k c] by (simp add: item)
  then have "classify od ch item = ch\<lparr>no_change := no_change ch @ [k]\<rparr>"
    by (simp add: classify_def item)
  moreover have "foldl (classify od) (ch\<lparr>no_change := no_change ch @ [k]\<rparr>) items =
      ch\<lparr>no_change := no_change ch @ [k] @ map fst items\<rparr>"
    using Cons.IH[of "ch\<lparr>no_change := no_change ch @ [k]\<rparr>"] Cons.prems by simp
  ultimately show ?case by (simp add: item)
qed

lemma foldl_drop_removed_none:
  "(\<And>k. k \<in> set ks \<Longrightarrow> dict_has nd k) \<Longrightarrow> foldl (drop_removed nd) ch ks = ch"
  by (induction ks arbitrary: ch) (simp_all add: drop_removed_def)

lemma compare_courses_same:
  "compare_courses cs cs =
     \<lparr>new = [], updated = [], removed = [], no_change = dict_keys (to_dict cs)\<rparr>"
proof -
  let ?d = "to_dict cs"
  have "dict_get ?d k = Some c" if "(k, c) \<in> set ?d" for k c
    using dict_get_distinct[OF distinct_keys_to_dict that] .
  then have "foldl (classify ?d) \<lparr>new = [], updated = [], removed = [], no_change = []\<rparr> ?d =
      \<lparr>new = [], updated = [], removed = [], no_change = dict_keys ?d\<rparr>"
    by (simp add: foldl_classify_same dict_keys_def)
  moreover have "foldl (drop_removed ?d) ch (dict_keys ?d) = ch" for ch
    by (rule foldl_drop_removed_none) (simp add: dict_has_def)
  ultimately show ?thesis
    by (simp add: compare_courses_def Let_def)
qed

text \<open>
  Claim C9, as the code has it. When the changes file can be written and the keys of
  the grades dictionary are distinct, running \<open>detect_changes\<close> on a grades file and
  running it again on the same grades file returns an empty result the second time:
  no student has an entry, so nothing is reported as new, updated or removed, and no
  course is classified at all, because the comparison is skipped for a student whose
  course list equals the stored one. Comparing a course list with itself by
  \<open>_compare_courses\<close> classifies every course name as no\_change.
\<close>

theorem detect_changes_twice_reports_nothing:
  assumes "distinct (dict_keys A)"
  shows "fst (detect_changes True (Content A) (snd (detect_changes True (Content A) f0))) = []
         \<and> compare_courses cs cs =
             \<lparr>new = [], updated = [], removed = [], no_change = dict_keys (to_dict cs)\<rparr>"
proof (cases "A = []")
  case True
  then show ?thesis
    by (simp add: detect_changes_def load_grades_def compare_courses_same)
next
  case False
  then show ?thesis
    by (simp add: detect_changes_persists detect_changes_same[OF assms] compare_courses_same)
qed

theorem detect_changes_twice_reports_nothing_witness:
  "distinct (dict_keys
     [(''s1'', \<lparr>last_updated = Some ''2024-01-01 10:00:00'',
                courses = Some [\<lparr>name = Some ''Math'', exams = Some [''Midterm: 70'']\<rparr>]\<rparr>)])
   \<and> fst (detect_changes True
        (Content [(''s1'', \<lparr>last_updated = Some ''2024-01-01 10:00:00'',
                courses = Some [\<lparr>name = Some ''Math'', exams = Some [''Midterm: 70'']\<rparr>]\<rparr>)])
        (snd (detect_changes True
          (Content [(''s1'', \<lparr>last_updated = Some ''2024-01-01 10:00:00'',
                courses = Some [\<lparr>name = Some ''Math'', exams = Some [''Midterm: 70'']\<rparr>]\<rparr>)])
          Missing))) = []
   \<and> compare_courses [\<lparr>name = Some ''Math'', exams = Some [''Midterm: 70'']\<rparr>]
                       [\<lparr>name = Some ''Math'', exams = Some [''Midterm: 70'']\<rparr>] =
       \<lparr>new = [], updated = [], removed = [], no_change = [''Math'']\<rparr>"
proof -
  have h: "distinct (dict_keys
     [(''s1'', \<lparr>last_updated = Some ''2024-01-01 10:00:00'',
                courses = Some [\<lparr>name = Some ''Math'', exams = Some [''Midterm: 70'']\<rparr>]\<rparr>)])"
    by (simp add: dict_keys_def)
  have k: "dict_keys (to_dict [\<lparr>name = Some ''Math'', exams = Some [''Midterm: 70'']\<rparr>]) = [''Math'']"
    by (simp add: dict_keys_def to_dict_def course_name_def)
  show ?thesis
    using h k detect_changes_twice_reports_nothing[OF h, of Missing
        "[\<lparr>name = Some ''Math'', exams = Some [''Midterm: 70'']\<rparr>]"]
    by simp
qed

text \<open>
  Claim C9 as stated fails: after the snapshot of student s1 with the one course Math
  has been stored, the second detection has no change set for s1, so Math is not
  classified unchanged.
\<close>

theorem detect_changes_twice_counterexample:
  "\<not> (\<exists>e. dict_get
          (fst (detect_changes True
            (Content [(''s1'', \<lparr>last_updated = Some ''2024-01-01 10:00:00'',
                courses = Some [\<lparr>name = Some ''Math'', exams = Some [''Midterm: 70'']\<rparr>]\<rparr>)])
            (snd (detect_changes True
              (Content [(''s1'', \<lparr>last_updated = Some ''2024-01-01 10:00:00'',
                courses = Some [\<lparr>name = Some ''Math'', exams = Some [''Midterm: 70'']\<rparr>]\<rparr>)])
              Missing))))
          ''s1'' = Some e
        \<and> ''Math'' \<in> set (no_change (course_changes e)))"
  by (simp add: detect_changes_def load_grades_def load_previous_changes_def save_changes_def
      detect_student_def previous_courses_of_def data_courses_def dict_get_def Let_def)

subsection \<open>Sessions\<close>

lemmas session_defs =
  fetch_student_data_def fetch_body_def renew_session_def is_session_expired_def
  time_time_def handler_login_def get_page_content_def logger_def handler_close_def

lemma fetch_body_username:
  "username (snd (fetch_body p cfg auto m)) = username m"
  by (simp add: session_defs split: outcome.splits prod.splits)

lemma fetch_body_no_close:
  "count_list (trace (snd (fetch_body p cfg auto m))) (Close u) = count_list (trace m) (Close u)"
  by (simp add: session_defs split: outcome.splits prod.splits)

text \<open>
  Claim C5. Whatever the portal does during a fetch (each login and the retrieval may
  return success, return failure or raise), \<open>fetch_student_data\<close> adds exactly one
  close of its handler to the trace, and that close is the last call made on the
  handler.
\<close>

theorem fetch_closes_handle_once:
  "count_list (trace (snd (fetch_student_data p cfg auto m))) (Close (username m)) =
     Suc (count_list (trace m) (Close (username m)))
   \<and> last (calls (trace (snd (fetch_student_data p cfg auto m)))) = Close (username m)"
proof -
  obtain r m' where b: "fetch_body p cfg auto m = (r, m')" by (cases "fetch_body p cfg auto m")
  have u: "username m' = username m" using fetch_body_username[of p cfg auto m] by (simp add: b)
  have c: "count_list (trace m') (Close (username m)) = count_list (trace m) (Close (username m))"
    using fetch_body_no_close[of p cfg auto m] by (simp add: b)
  show ?thesis
    by (simp add: fetch_student_data_def b handler_close_def logger_def u c calls_def)
qed

text \<open>
  Claim C4. When the first login of a fetch yields a session and, at the expiry
  check, the time since the session was established is at least the configured
  timeout, the calls on the handler are: the login, exactly one renewal login, the
  retrieval only if the renewal yielded a session, and the close. If the renewal is
  refused the fetch returns \<open>False\<close>, and if the renewal raises the fetch raises the
  same exception; in both cases no retrieval call is made.
\<close>

theorem fetch_renews_once_when_expired:
  assumes "login_reply p (logins m) = Returns True"
      and "clock p (Suc (ticks m)) - clock p (ticks m) \<ge> SESSION_TIMEOUT cfg"
  shows "calls (trace (snd (fetch_student_data p cfg auto m))) =
           calls (trace m) @ [Login (username m), Login (username m)]
             @ (if login_reply p (Suc (logins m)) = Returns True
                then [GetPage (username m) (sapid m) auto] else [])
             @ [Close (username m)]
         \<and> (login_reply p (Suc (logins m)) = Returns False \<longrightarrow>
              fst (fetch_student_data p cfg auto m) = Returns False)
         \<and> (\<forall>e. login_reply p (Suc (logins m)) = Raises e \<longrightarrow>
              fst (fetch_student_data p cfg auto m) = Raises e)"
  using assms
  by (cases "login_reply p (Suc (logins m))")
     (auto simp: session_defs calls_def split: outcome.splits prod.splits)

lemmas example_defs =
  alice_def bob_def refusing_portal_def crashing_portal_def expiring_portal_def
  quick_settings_def default_config_def worker_manager_def SessionManager_def
  get_or_empty_def complete_def

theorem fetch_renews_once_when_expired_witness:
  "login_reply expiring_portal (logins (worker_manager alice)) = Returns True
   \<and> SESSION_TIMEOUT default_config
       \<le> clock expiring_portal (Suc (ticks (worker_manager alice)))
         - clock expiring_portal (ticks (worker_manager alice))
   \<and> calls (trace (snd (fetch_student_data expiring_portal default_config False
                          (worker_manager alice)))) =
       [Login ''alice'', Login ''alice'', Close ''alice'']
   \<and> fst (fetch_student_data expiring_portal default_config False (worker_manager alice)) =
       Returns False"
proof -
  have h1: "login_reply expiring_portal (logins (worker_manager alice)) = Returns True"
    by (simp add: example_defs logger_def)
  have h2: "SESSION_TIMEOUT default_config
       \<le> clock expiring_portal (Suc (ticks (worker_manager alice)))
         - clock expiring_portal (ticks (worker_manager alice))"
    by (simp add: example_defs logger_def)
  have h3: "login_reply expiring_portal (Suc (logins (worker_manager alice))) = Returns False"
    by (simp add: example_defs logger_def)
  have h4: "calls (trace (worker_manager alice)) = []" "username (worker_manager alice) = ''alice''"
    by (simp_all add: example_defs logger_def calls_def)
  show ?thesis
    using fetch_renews_once_when_expired[OF h1 h2, of False] h1 h2
    by (simp add: h3 h4)
qed

subsection \<open>Workers\<close>

lemma process_user_returns: "fst (process_user running p cfg auto uc tf) = Returns ()"
proof -
  obtain r m where f: "fetch_student_data p cfg auto (worker_manager uc) = (r, m)"
    by (cases "fetch_student_data p cfg auto (worker_manager uc)")
  show ?thesis by (cases r) (simp_all add: process_user_def f)
qed

lemma process_user_tracking: "snd (snd (process_user running p cfg auto uc tf)) = tf"
proof -
  obtain r m where f: "fetch_student_data p cfg auto (worker_manager uc) = (r, m)"
    by (cases "fetch_student_data p cfg auto (worker_manager uc)")
  show ?thesis by (cases r) (simp_all add: process_user_def f)
qed

lemma run_workers_outcomes:
  "map fst (fst (run_workers e cfg auto k i ucs tf)) = replicate (length ucs) (Returns ())"
proof (induction ucs arbitrary: i tf)
  case Nil
  show ?case by simp
next
  case (Cons uc ucs)
  obtain r tr tf1 where pu: "process_user (bot_running e (AtWorker k i)) (portal_of e k i) cfg auto uc tf
      = (r, tr, tf1)" by (metis prod_cases3)
  have r: "r = Returns ()" using process_user_returns[of "bot_running e (AtWorker k i)"
      "portal_of e k i" cfg auto uc tf] by (simp add: pu)
  obtain ws tf2 where rw: "run_workers e cfg auto k (Suc i) ucs tf1 = (ws, tf2)"
    by (cases "run_workers e cfg auto k (Suc i) ucs tf1")
  have "map fst ws = replicate (length ucs) (Returns ())"
    using Cons.IH[of "Suc i" tf1] by (simp add: rw)
  then show ?case by (simp add: pu rw r)
qed

lemma run_iteration_fields:
  "number (fst (run_iteration e auto ul mw k cfg tf)) = k"
  "submitted (fst (run_iteration e auto ul mw k cfg tf)) = ul"
  "max_workers (fst (run_iteration e auto ul mw k cfg tf)) = mw"
  "settings (fst (run_iteration e auto ul mw k cfg tf)) =
     load_settings (env_TELEGRAM_BOT_TOKEN e) (env_TELEGRAM_CHAT_ID e) (settings_file e k) cfg"
  "current_delay (fst (run_iteration e auto ul mw k cfg tf)) =
     (if bot_running e (AfterPool k)
      then Some (REQUEST_DELAY (load_settings (env_TELEGRAM_BOT_TOKEN e) (env_TELEGRAM_CHAT_ID e)
                   (settings_file e k) cfg))
      else None)"
  "workers (fst (run_iteration e auto ul mw k cfg tf)) =
     fst (run_workers e (load_settings (env_TELEGRAM_BOT_TOKEN e) (env_TELEGRAM_CHAT_ID e)
                   (settings_file e k) cfg) auto k 0 ul tf)"
  by (simp_all add: run_iteration_def Let_def split: prod.splits)

subsection \<open>The loop\<close>

lemma startup_users_nonempty: "startup_users e \<noteq> []"
  by (simp add: startup_users_def users_user_list_def Let_def)

lemma load_settings_delay:
  "REQUEST_DELAY (load_settings a b (Content s) cfg) = setting (request_delay s) (REQUEST_DELAY cfg)"
  by (simp add: load_settings_def Let_def)

lemma monitoring_loop_members:
  "it \<in> set (monitoring_loop e auto ul mw fuel k cfg tf) \<Longrightarrow>
   submitted it = ul \<and> max_workers it = mw
   \<and> (\<exists>c. settings it = load_settings (env_TELEGRAM_BOT_TOKEN e) (env_TELEGRAM_CHAT_ID e)
                            (settings_file e (number it)) c)
   \<and> (current_delay it = None \<or> current_delay it = Some (REQUEST_DELAY (settings it)))
   \<and> map fst (workers it) = replicate (length ul) (Returns ())"
proof (induction fuel arbitrary: k cfg tf)
  case 0
  then show ?case by simp
next
  case (Suc fuel)
  obtain it0 tf' where ri: "run_iteration e auto ul mw (Suc k) cfg tf = (it0, tf')"
    by (cases "run_iteration e auto ul mw (Suc k) cfg tf")
  have it0: "it0 = fst (run_iteration e auto ul mw (Suc k) cfg tf)" by (simp add: ri)
  from Suc.prems have "it = it0 \<or> it \<in> set (monitoring_loop e auto ul mw fuel (Suc k) (settings it0) tf')"
    by (auto simp: ri split: if_splits)
  then show ?case
  proof
    assume "it = it0"
    then show ?thesis
      unfolding it0 by (auto simp: run_iteration_fields run_workers_outcomes)
  next
    assume "it \<in> set (monitoring_loop e auto ul mw fuel (Suc k) (settings it0) tf')"
    then show ?thesis by (rule Suc.IH)
  qed
qed


lemma monitoring_loop_all_running:
  "(\<forall>c. bot_running e c) \<Longrightarrow>
   map number (monitoring_loop e auto ul mw fuel k cfg tf) = [Suc k..<Suc (k + fuel)]"
proof (induction fuel arbitrary: k cfg tf)
  case 0
  show ?case by simp
next
  case (Suc fuel)
  obtain it0 tf0 where ri: "run_iteration e auto ul mw (Suc k) cfg tf = (it0, tf0)"
    by (cases "run_iteration e auto ul mw (Suc k) cfg tf")
  have n0: "number it0 = Suc k" and d0: "current_delay it0 \<noteq> None"
    using run_iteration_fields(1,5)[of e auto ul mw "Suc k" cfg tf] Suc.prems
    by (simp_all add: ri)
  have ih: "map number (monitoring_loop e auto ul mw fuel (Suc k) (settings it0) tf0) =
        [Suc (Suc k)..<Suc (Suc k + fuel)]"
    using Suc.prems by (rule Suc.IH)
  have lhs: "map number (monitoring_loop e auto ul mw (Suc fuel) k cfg tf) =
        Suc k # map number (monitoring_loop e auto ul mw fuel (Suc k) (settings it0) tf0)"
    using Suc.prems d0 by (auto simp: ri n0)
  have rhs: "[Suc k..<Suc (k + Suc fuel)] = Suc k # [Suc (Suc k)..<Suc (Suc k + fuel)]"
    by (subst upt_rec) simp
  show ?case by (simp only: lhs rhs ih)
qed


lemma run_numbers_all_running:
  "(\<forall>c. bot_running e c) \<Longrightarrow> map number (run_monitoring_loop e fuel) = [1..<Suc fuel]"
  unfolding run_monitoring_loop_def Let_def
  by (simp add: startup_users_nonempty monitoring_loop_all_running)

lemma run_members:
  "it \<in> set (run_monitoring_loop e fuel) \<Longrightarrow>
   submitted it = startup_users e \<and> max_workers it = min 3 (length (startup_users e))
   \<and> (\<exists>c. settings it = load_settings (env_TELEGRAM_BOT_TOKEN e) (env_TELEGRAM_CHAT_ID e)
                            (settings_file e (number it)) c)
   \<and> (current_delay it = None \<or> current_delay it = Some (REQUEST_DELAY (settings it)))
   \<and> map fst (workers it) = replicate (length (startup_users e)) (Returns ())"
  unfolding run_monitoring_loop_def Let_def
  by (simp add: startup_users_nonempty) (rule monitoring_loop_members)

lemma example_running: "\<forall>c. bot_running example_env c"
  by (simp add: example_env_def)

lemma example_run:
  "map number (run_monitoring_loop example_env 2) = [1, 2]"
  "length (run_monitoring_loop example_env 2) = 2"
  "run_monitoring_loop example_env 2 ! 1 \<in> set (run_monitoring_loop example_env 2)"
  "hd (run_monitoring_loop example_env 2) \<in> set (run_monitoring_loop example_env 2)"
  "number (run_monitoring_loop example_env 2 ! 1) = 2"
proof -
  show n: "map number (run_monitoring_loop example_env 2) = [1, 2]"
    using run_numbers_all_running[OF example_running, of 2] by (simp add: upt_rec)
  from n have "length (map number (run_monitoring_loop example_env 2)) = 2" by simp
  then show l: "length (run_monitoring_loop example_env 2) = 2" by simp
  from l show "run_monitoring_loop example_env 2 ! 1 \<in> set (run_monitoring_loop example_env 2)"
    by simp
  from l show "hd (run_monitoring_loop example_env 2) \<in> set (run_monitoring_loop example_env 2)"
    by (cases "run_monitoring_loop example_env 2") simp_all
  have "map number (run_monitoring_loop example_env 2) ! 1 = 2" by (simp add: n)
  then show "number (run_monitoring_loop example_env 2 ! 1) = 2" by (simp add: l)
qed

lemma example_users:
  "startup_users example_env = [alice]"
  "load_users (users_file example_env 2) (env_UBYS_USERS example_env) = [alice, bob]"
  by (simp_all add: startup_users_def load_users_def example_env_def Let_def)



text \<open>
  Claim C7, as the code has it. \<open>process_user\<close> leaves the error-tracking file as it
  was, whatever happens. When the user entry is complete and \<open>fetch_student_data\<close>
  returns \<open>False\<close>, the last line the worker logs is the warning that the fetch failed;
  when it raises, the last line is the error carrying the exception's text. The
  worker only logs: it makes no call of \<open>record_fetch_error\<close>.
\<close>

theorem worker_logs_failure_and_records_nothing:
  "snd (snd (process_user running p cfg auto uc tf)) = tf
   \<and> (complete uc \<and> fst (fetch_student_data p cfg auto (worker_manager uc)) = Returns False \<longrightarrow>
        last (fst (snd (process_user True p cfg auto uc tf))) =
          Log WARNING (failure_warning (get_or_empty (user_name uc))))
   \<and> (\<forall>err. complete uc \<and> fst (fetch_student_data p cfg auto (worker_manager uc)) = Raises err \<longrightarrow>
        last (fst (snd (process_user True p cfg auto uc tf))) =
          Log ERROR (failure_error (get_or_empty (user_name uc)) err))"
proof -
  obtain r m where f: "fetch_student_data p cfg auto (worker_manager uc) = (r, m)"
    by (cases "fetch_student_data p cfg auto (worker_manager uc)")
  show ?thesis
    by (cases r) (auto simp: process_user_tracking process_user_def f logger_def)
qed

theorem worker_logs_failure_and_records_nothing_witness:
  "complete alice
   \<and> fst (fetch_student_data refusing_portal default_config False (worker_manager alice)) =
       Returns False
   \<and> last (fst (snd (process_user True refusing_portal default_config False alice Missing))) =
       Log WARNING (failure_warning ''alice'')
   \<and> snd (snd (process_user True refusing_portal default_config False alice Missing)) = Missing
   \<and> fst (fetch_student_data crashing_portal default_config False (worker_manager alice)) =
       Raises ''boom''
   \<and> last (fst (snd (process_user True crashing_portal default_config False alice Missing))) =
       Log ERROR (failure_error ''alice'' ''boom'')"
proof -
  have c: "complete alice" "get_or_empty (user_name alice) = ''alice''"
    by (simp_all add: example_defs)
  have f1: "fst (fetch_student_data refusing_portal default_config False (worker_manager alice)) =
       Returns False"
    by (simp add: session_defs example_defs)
  have f2: "fst (fetch_student_data crashing_portal default_config False (worker_manager alice)) =
       Raises ''boom''"
    by (simp add: session_defs example_defs)
  show ?thesis
    using worker_logs_failure_and_records_nothing[of True refusing_portal default_config False
        alice Missing]
      worker_logs_failure_and_records_nothing[of True crashing_portal default_config False
        alice Missing] c f1 f2
    by simp
qed

text \<open>
  Claim C7 as stated fails: alice's login is refused, so her fetch cycle fails, and
  after the worker has finished the alert store holds no fetch-error record for her.
\<close>

theorem worker_records_no_alert_counterexample:
  "fst (fetch_student_data refusing_portal default_config False (worker_manager alice)) =
     Returns False
   \<and> dict_get (get_error_alerts
        (snd (snd (process_user True refusing_portal default_config False alice Missing))))
        ''alice'' = None"
proof -
  have "fst (fetch_student_data refusing_portal default_config False (worker_manager alice)) =
       Returns False"
    by (simp add: session_defs example_defs)
  then show ?thesis
    by (simp add: process_user_tracking get_error_alerts_def load_tracking_def dict_get_def)
qed

text \<open>
  Claim C8, as the code has it. In every iteration the loop runs, the settings in
  force are those just loaded from bot\_settings.json as it is at the start of that
  iteration: when the file gives a request delay, that value is the iteration's
  \<open>REQUEST_DELAY\<close> and the delay slept after it. The accounts submitted are the list
  loaded once before the loop, and the pool size is the smaller of 3 and the length
  of that list, in every iteration.
\<close>

theorem loop_reloads_settings_not_accounts:
  assumes "it \<in> set (run_monitoring_loop e fuel)"
  shows "submitted it = startup_users e
         \<and> max_workers it = min 3 (length (startup_users e))
         \<and> (\<exists>c. settings it = load_settings (env_TELEGRAM_BOT_TOKEN e) (env_TELEGRAM_CHAT_ID e)
                                  (settings_file e (number it)) c)
         \<and> (\<forall>s d. settings_file e (number it) = Content s \<and> request_delay s = Some d \<longrightarrow>
               REQUEST_DELAY (settings it) = d
               \<and> (current_delay it = None \<or> current_delay it = Some d))"
proof -
  note m = run_members[OF assms]
  from m obtain c where c: "settings it = load_settings (env_TELEGRAM_BOT_TOKEN e)
      (env_TELEGRAM_CHAT_ID e) (settings_file e (number it)) c" by blast
  have "REQUEST_DELAY (settings it) = d \<and> (current_delay it = None \<or> current_delay it = Some d)"
    if "settings_file e (number it) = Content s" "request_delay s = Some d" for s d
  proof -
    have "REQUEST_DELAY (settings it) = d"
      using that by (simp add: c load_settings_delay setting_def)
    with m show ?thesis by auto
  qed
  with m c show ?thesis by blast
qed

theorem loop_reloads_settings_not_accounts_witness:
  "run_monitoring_loop example_env 2 ! 1 \<in> set (run_monitoring_loop example_env 2)
   \<and> number (run_monitoring_loop example_env 2 ! 1) = 2
   \<and> settings_file example_env 2 = Content quick_settings
   \<and> request_delay quick_settings = Some 5
   \<and> REQUEST_DELAY (settings (run_monitoring_loop example_env 2 ! 1)) = 5
   \<and> (current_delay (run_monitoring_loop example_env 2 ! 1) = None
       \<or> current_delay (run_monitoring_loop example_env 2 ! 1) = Some 5)
   \<and> submitted (run_monitoring_loop example_env 2 ! 1) = [alice]
   \<and> max_workers (run_monitoring_loop example_env 2 ! 1) = 1"
proof -
  have s: "settings_file example_env 2 = Content quick_settings"
    "request_delay quick_settings = Some 5"
    by (simp_all add: example_env_def quick_settings_def)
  show ?thesis
    using loop_reloads_settings_not_accounts[OF example_run(3)] example_run(3,5) s example_users(1)
    by simp
qed

text \<open>
  Claim C8 as stated fails for the account list and the concurrency: bob is added to
  users\_config.json before the second iteration starts, yet the second iteration
  submits alice alone, with a pool of one worker.
\<close>

theorem account_list_not_reloaded_counterexample:
  "number (run_monitoring_loop example_env 2 ! 1) = 2
   \<and> load_users (users_file example_env 2) (env_UBYS_USERS example_env) = [alice, bob]
   \<and> submitted (run_monitoring_loop example_env 2 ! 1) = [alice]
   \<and> submitted (run_monitoring_loop example_env 2 ! 1)
       \<noteq> load_users (users_file example_env 2) (env_UBYS_USERS example_env)
   \<and> max_workers (run_monitoring_loop example_env 2 ! 1) = 1"
  using run_members[OF example_run(3)] example_run(5) example_users
  by simp

subsection \<open>The auto-survey flag a retrieval reads\<close>

text \<open>
  Every retrieval made in any iteration reads the value \<open>login.AUTO_SURVEY\<close> was bound
  to when the program started, whatever the settings files hold later.
\<close>

lemma fetch_student_data_flag:
  "GetPage u url a \<in> set (trace (snd (fetch_student_data p cfg auto m))) \<Longrightarrow>
   GetPage u url a \<in> set (trace m) \<or> a = auto"
  by (auto simp: session_defs split: outcome.splits prod.splits if_splits)

lemma process_user_flag:
  "GetPage u url a \<in> set (fst (snd (process_user running p cfg auto uc tf))) \<Longrightarrow> a = auto"
proof -
  assume g: "GetPage u url a \<in> set (fst (snd (process_user running p cfg auto uc tf)))"
  obtain r m where f: "fetch_student_data p cfg auto (worker_manager uc) = (r, m)"
    by (cases "fetch_student_data p cfg auto (worker_manager uc)")
  have w: "GetPage u url a \<notin> set (trace (worker_manager uc))"
    by (simp add: worker_manager_def logger_def SessionManager_def)
  from g have "GetPage u url a \<in> set (trace m)"
    by (cases r) (auto simp: process_user_def f logger_def split: if_splits)
  then show "a = auto"
    using fetch_student_data_flag[of u url a p cfg auto "worker_manager uc"] w by (simp add: f)
qed

lemma run_workers_flag:
  "w \<in> set (fst (run_workers e cfg auto k i ucs tf)) \<Longrightarrow>
   GetPage u url a \<in> set (snd w) \<Longrightarrow> a = auto"
proof (induction ucs arbitrary: i tf)
  case Nil
  then show ?case by simp
next
  case (Cons uc ucs)
  obtain r tr tf1 where pu: "process_user (bot_running e (AtWorker k i)) (portal_of e k i) cfg auto uc tf
      = (r, tr, tf1)" by (metis prod_cases3)
  obtain ws tf2 where rw: "run_workers e cfg auto k (Suc i) ucs tf1 = (ws, tf2)"
    by (cases "run_workers e cfg auto k (Suc i) ucs tf1")
  from Cons.prems(1) have "w = (r, tr) \<or> w \<in> set ws" by (simp add: pu rw)
  then show ?case
  proof
    assume "w = (r, tr)"
    then have "GetPage u url a \<in> set (fst (snd (process_user (bot_running e (AtWorker k i))
        (portal_of e k i) cfg auto uc tf)))" using Cons.prems(2) by (simp add: pu)
    then show ?thesis by (rule process_user_flag)
  next
    assume "w \<in> set ws"
    then have "w \<in> set (fst (run_workers e cfg auto k (Suc i) ucs tf1))" by (simp add: rw)
    then show ?thesis using Cons.prems(2) by (rule Cons.IH)
  qed
qed

lemma monitoring_loop_flag:
  "it \<in> set (monitoring_loop e auto ul mw fuel k cfg tf) \<Longrightarrow> w \<in> set (workers it) \<Longrightarrow>
   GetPage u url a \<in> set (snd w) \<Longrightarrow> a = auto"
proof (induction fuel arbitrary: k cfg tf)
  case 0
  then show ?case by simp
next
  case (Suc fuel)
  obtain it0 tf' where ri: "run_iteration e auto ul mw (Suc k) cfg tf = (it0, tf')"
    by (cases "run_iteration e auto ul mw (Suc k) cfg tf")
  have it0: "it0 = fst (run_iteration e auto ul mw (Suc k) cfg tf)" by (simp add: ri)
  from Suc.prems(1) have "it = it0 \<or> it \<in> set (monitoring_loop e auto ul mw fuel (Suc k) (settings it0) tf')"
    by (auto simp: ri split: if_splits)
  then show ?case
  proof
    assume "it = it0"
    then have "w \<in> set (fst (run_workers e (load_settings (env_TELEGRAM_BOT_TOKEN e)
        (env_TELEGRAM_CHAT_ID e) (settings_file e (Suc k)) cfg) auto (Suc k) 0 ul tf))"
      using Suc.prems(2) by (simp add: it0 run_iteration_fields)
    then show ?thesis using Suc.prems(3) by (rule run_workers_flag)
  next
    assume "it \<in> set (monitoring_loop e auto ul mw fuel (Suc k) (settings it0) tf')"
    then show ?thesis using Suc.prems(2,3) by (rule Suc.IH)
  qed
qed

lemma auto_survey_flag_fixed:
  "it \<in> set (run_monitoring_loop e fuel) \<Longrightarrow> w \<in> set (workers it) \<Longrightarrow>
   GetPage u url a \<in> set (snd w) \<Longrightarrow> a = login_AUTO_SURVEY e"
  unfolding run_monitoring_loop_def Let_def
  by (simp add: startup_users_nonempty) (rule monitoring_loop_flag)

end
